theory Spec2Isabelle
  imports Main
begin

section \<open>JavaScript strings\<close>

text \<open>
  Strings are lists of characters with codes 0..255, read as the code points of the same
  number. \<open>String.prototype.trim\<close> removes white space and line terminators at both ends;
  in this range these are TAB, LF, VT, FF, CR, SPACE and NBSP.
\<close>

definition js_whitespace :: "char \<Rightarrow> bool" where
  "js_whitespace c = (of_char c \<in> {9, 10, 11, 12, 13, 32, 160 :: nat})"

definition trim :: "string \<Rightarrow> string" where
  "trim s = rev (dropWhile js_whitespace (rev (dropWhile js_whitespace s)))"

fun startsWith :: "string \<Rightarrow> string \<Rightarrow> bool" where
  "startsWith s [] = True"
| "startsWith [] (p # ps) = False"
| "startsWith (c # cs) (p # ps) = (c = p \<and> startsWith cs ps)"

fun js_includes :: "string \<Rightarrow> string \<Rightarrow> bool" where
  "js_includes [] p = (p = [])"
| "js_includes (c # cs) p = (startsWith (c # cs) p \<or> js_includes cs p)"

definition LISTENING :: string where
  "LISTENING = ''[ Listening... ]''"

text \<open>
  \<open>atob\<close> follows the forgiving-base64 decoding of the HTML standard: ASCII white space is
  removed, one or two trailing \<open>=\<close> are removed when the length is a multiple of four,
  and decoding fails when the remaining length is 1 modulo 4 or a character is outside the
  base64 alphabet. Only success or failure matters to the caller here.
\<close>

definition ascii_whitespace :: "char \<Rightarrow> bool" where
  "ascii_whitespace c = (of_char c \<in> {9, 10, 12, 13, 32 :: nat})"

definition base64_char :: "char \<Rightarrow> bool" where
  "base64_char c =
     (let n = (of_char c :: nat)
      in (65 \<le> n \<and> n \<le> 90) \<or> (97 \<le> n \<and> n \<le> 122) \<or> (48 \<le> n \<and> n \<le> 57) \<or> n = 43 \<or> n = 47)"

definition strip_padding :: "string \<Rightarrow> string" where
  "strip_padding d =
     (if length d mod 4 \<noteq> 0 then d
      else if startsWith (rev d) ''=='' then butlast (butlast d)
      else if startsWith (rev d) ''='' then butlast d
      else d)"

definition atob_succeeds :: "string \<Rightarrow> bool" where
  "atob_succeeds data =
     (let d = strip_padding (filter (\<lambda>c. \<not> ascii_whitespace c) data)
      in length d mod 4 \<noteq> 1 \<and> list_all base64_char d)"

section \<open>JavaScript values\<close>

text \<open>
  The values a field of a parsed JSON message can have. \<open>JUndefined\<close> is an absent field.
  Of a number only two things are used: whether it is zero, and the string JavaScript
  converts it to (\<open>1e+21\<close> for the number 1e21, \<open>0.5\<close> for a half); \<open>JNum\<close> carries
  both. \<open>JObject\<close> is an object or array, carrying the string its conversion to a string
  yields.
\<close>

datatype jsval = JUndefined | JNull | JBool bool | JNum bool string | JStr string | JObject string

fun truthy :: "jsval \<Rightarrow> bool" where
  "truthy JUndefined = False"
| "truthy JNull = False"
| "truthy (JBool b) = b"
| "truthy (JNum z r) = (\<not> z)"
| "truthy (JStr s) = (s \<noteq> [])"
| "truthy (JObject r) = True"

fun js_toString :: "jsval \<Rightarrow> string" where
  "js_toString JUndefined = ''undefined''"
| "js_toString JNull = ''null''"
| "js_toString (JBool b) = (if b then ''true'' else ''false'')"
| "js_toString (JNum z r) = r"
| "js_toString (JStr s) = s"
| "js_toString (JObject r) = r"

text \<open>
  An inbound frame: \<open>JSON.parse\<close> throws, or yields \<open>null\<close> or a primitive (on which
  the handler's property accesses throw, the module being strict-mode code), or yields an
  object with the four fields the handler reads (an array is an object with none of them).
\<close>

record message =
  role :: jsval
  content :: jsval
  audio :: jsval
  interviewComplete :: jsval

datatype payload = Unparseable | NonObject | Object message

text \<open>An outbound frame, the object given to \<open>JSON.stringify\<close> and \<open>websocket.send\<close>.\<close>

record outmsg =
  mtype :: string
  mcontent :: string
  transcription :: "string option"
  mvoiceStyle :: string

text \<open>
  A function that may throw returns its completion together with the state it leaves: the
  effects made before the exception stay.
\<close>

datatype 'a completion = Returned 'a | Thrown 'a

fun state_of :: "'a completion \<Rightarrow> 'a" where
  "state_of (Returned s) = s"
| "state_of (Thrown s) = s"

section \<open>ui.js: the rendering collaborator\<close>

text \<open>
  The document is reduced to what the coordinator reads back or what a claim observes:
  whether the loading indicator is shown, the messages passed to \<open>showError\<close> in order,
  the message bubbles of the chat container, and the bubble that
  \<open>currentAssistantMessageDiv\<close> points to. A bubble carries the identity of its DOM node,
  its CSS class, its paragraph and whether it has the class \<open>speaking-animation\<close>. Fades,
  focus handling, screen-reader attributes and the voice badge are left out.

  The paragraph of a bubble is kept as the program wrote it. \<open>Markup c\<close>: the bubble's
  \<open>innerHTML\<close> was assigned the markup made of \<open><p>\<close>, the string \<open>c\<close> and \<open></p>\<close>;
  what the browser shows is the text of that markup as its parser reads it. \<open>Text t\<close>:
  the paragraph's \<open>textContent\<close> was assigned \<open>t\<close>.
\<close>

datatype cls = MsgUser | MsgAssistant | MsgSystem

datatype para = Markup string | Text string

record bubble =
  node :: nat
  cls :: cls
  pElement :: para
  speaking :: bool

text \<open>
  The text of a bubble as \<open>textContent\<close> reads it. For a paragraph assigned as text it is
  that text. For one built from markup it is taken to be the interpolated string, which is
  what the parser yields when the string has no markup and no character reference. It is
  read in one place only, the search for the placeholder among the user bubbles.
\<close>

fun textContent :: "bubble \<Rightarrow> string" where
  "textContent b = (case pElement b of Markup c \<Rightarrow> c | Text t \<Rightarrow> t)"

record ui =
  loadingMessage :: bool
  errorAlert :: "string list"
  chatContainer :: "bubble list"
  currentAssistantMessageDiv :: "nat option"
  nodes :: nat
  voiceStyle :: string

section \<open>speech.js: the transcription accumulator\<close>

text \<open>
  The module-level variables of speech.js. \<open>recognition\<close> tells whether a recognizer
  instance exists, \<open>recognitionTimeout\<close> whether the 60 s ceiling timer is armed, and
  \<open>speechSupported\<close> whether the browser has a \<open>SpeechRecognition\<close> constructor.
\<close>

record speech =
  recognition :: bool
  interimTranscript :: string
  finalTranscript :: string
  isRecognizing :: bool
  recognitionTimeout :: bool
  recognitionRestartCount :: nat
  speechSupported :: bool

section \<open>audio.js: capture buffer and playback\<close>

text \<open>
  Every \<open>MediaRecorder\<close> created so far is kept with the stream it records, indexed by
  its position: its \<open>state\<close> attribute, whether \<open>stop()\<close> has been called and the
  browser has not yet dispatched the \<open>dataavailable\<close> and \<open>stop\<close> events, and whether
  the tracks of its stream are still live. The module variable \<open>mediaRecorder\<close> points
  to one of them. A blob is its sequence of bytes.
\<close>

datatype rstate = Inactive | Recording

record recorder =
  rstate :: rstate
  stopQueued :: bool
  tracksLive :: bool

record capture =
  recorders :: "recorder list"
  mediaRecorder :: "nat option"
  audioChunks :: "string list"
  recordingIndicator :: bool

text \<open>
  The player: the MIME types for which \<open>audioPlayer.play()\<close> has been called, oldest
  first; the format captured by the \<open>onended\<close> and \<open>onerror\<close> handlers now installed;
  the numbers of object URLs created and revoked. audio.js imports only \<open>showError\<close>
  from ui.js, so \<open>animationInScope\<close> tells whether the names \<open>startSpeakingAnimation\<close>
  and \<open>stopSpeakingAnimation\<close> are bound where audio.js runs (to the functions of ui.js);
  if not, calling them throws a ReferenceError.
\<close>

record player =
  attempts :: "string list"
  handlerFormat :: "(string \<times> string) option"
  urlsCreated :: nat
  urlsRevoked :: nat
  animationInScope :: bool

section \<open>interview.js: session connection and turn coordinator\<close>

datatype readyState = CONNECTING | OPEN | CLOSING | CLOSED

text \<open>
  What a call of \<open>getRecordedAudioBase64\<close> starts: with an empty chunk list its promise
  is already resolved with \<open>null\<close>; otherwise a \<open>FileReader\<close> reads the blob made of the
  chunks.
\<close>

datatype reading = NoChunks | Reading "string list"

text \<open>
  The module variables of interview.js and the DOM state its handlers read and write:
  the value of the text box, whether the insights button is displayed, whether the two
  recording buttons are disabled. \<open>sent\<close> lists the frames given to \<open>websocket.send\<close>
  and \<open>sockets\<close> counts the WebSockets constructed. \<open>pendingAudio\<close> holds, for each
  \<open>sendAudio\<close> invocation suspended at its await, the chunks its \<open>FileReader\<close> is reading. \<open>awaitingOpen\<close> tells whether
  \<open>startNewInterview\<close> is suspended at \<open>await connectWebSocket()\<close> on the current
  socket. The timer fields count the armed 100 ms (send) and 30 s (auto-stop) timers, and
  \<open>consoleErrors\<close> lists what interview.js writes with \<open>console.error\<close>.
\<close>

record interview =
  websocket :: "readyState option"
  interviewId :: "string option"
  isProcessingResponse :: bool
  isRecording :: bool
  viewInsightsBtn :: bool
  textResponseInput :: string
  sent :: "outmsg list"
  sockets :: nat
  pendingAudio :: "string list list"
  startDisabled :: bool
  stopDisabled :: bool
  awaitingOpen :: bool
  sendTimers :: nat
  autoStopTimers :: nat
  consoleErrors :: "string list"

section \<open>The whole page\<close>

record app =
  ui :: ui
  speech :: speech
  capture :: capture
  player :: player
  interview :: interview

definition MAX_RESTART_ATTEMPTS :: nat where
  "MAX_RESTART_ATTEMPTS = 3"

subsection \<open>ui.js functions\<close>

definition showError :: "string \<Rightarrow> app \<Rightarrow> app" where
  "showError message s = s\<lparr>ui := (ui s)\<lparr>errorAlert := errorAlert (ui s) @ [message]\<rparr>\<rparr>"

definition showLoading :: "app \<Rightarrow> app" where
  "showLoading s = s\<lparr>ui := (ui s)\<lparr>loadingMessage := True\<rparr>\<rparr>"

definition hideLoading :: "app \<Rightarrow> app" where
  "hideLoading s = s\<lparr>ui := (ui s)\<lparr>loadingMessage := False\<rparr>\<rparr>"

text \<open>
  The three display functions create a \<open>div\<close> of the given class, assign the markup
  around the interpolated string to its \<open>innerHTML\<close>, and append it to the chat container.
\<close>

definition appendChild :: "cls \<Rightarrow> string \<Rightarrow> app \<Rightarrow> app" where
  "appendChild c t s = s\<lparr>ui := (ui s)\<lparr>
     chatContainer := chatContainer (ui s) @
       [\<lparr>node = nodes (ui s), cls = c, pElement = Markup t, speaking = False\<rparr>],
     nodes := Suc (nodes (ui s))\<rparr>\<rparr>"

definition startSpeakingAnimation :: "app \<Rightarrow> app" where
  "startSpeakingAnimation s =
     (case currentAssistantMessageDiv (ui s) of
        None \<Rightarrow> s
      | Some k \<Rightarrow> s\<lparr>ui := (ui s)\<lparr>chatContainer :=
          map (\<lambda>b. if node b = k then b\<lparr>speaking := True\<rparr> else b) (chatContainer (ui s))\<rparr>\<rparr>)"

definition stopSpeakingAnimation :: "app \<Rightarrow> app" where
  "stopSpeakingAnimation s =
     (case currentAssistantMessageDiv (ui s) of
        None \<Rightarrow> s
      | Some k \<Rightarrow> s\<lparr>ui := (ui s)\<lparr>chatContainer :=
          map (\<lambda>b. if node b = k then b\<lparr>speaking := False\<rparr> else b) (chatContainer (ui s)),
          currentAssistantMessageDiv := None\<rparr>\<rparr>)"

definition displayUserMessage :: "string \<Rightarrow> app \<Rightarrow> app" where
  "displayUserMessage txt = appendChild MsgUser txt"

definition removePlaceholders :: "app \<Rightarrow> app" where
  "removePlaceholders s = s\<lparr>ui := (ui s)\<lparr>chatContainer :=
     filter (\<lambda>b. \<not> (cls b = MsgUser \<and> js_includes (textContent b) LISTENING))
       (chatContainer (ui s))\<rparr>\<rparr>"

definition displayUserPlaceholder :: "string \<Rightarrow> app \<Rightarrow> app" where
  "displayUserPlaceholder placeholder s = displayUserMessage placeholder (removePlaceholders s)"

text \<open>
  \<open>displayUserTranscription\<close> rewrites the text of the most recent user bubble that still
  contains the placeholder; with no such bubble it only logs a warning.
\<close>

fun updateLastPlaceholder :: "string \<Rightarrow> bubble list \<Rightarrow> bubble list option" where
  "updateLastPlaceholder t [] = None"
| "updateLastPlaceholder t (b # bs) =
     (case updateLastPlaceholder t bs of
        Some bs' \<Rightarrow> Some (b # bs')
      | None \<Rightarrow>
          if cls b = MsgUser \<and> js_includes (textContent b) LISTENING
          then Some (b\<lparr>pElement := Text t\<rparr> # bs) else None)"

definition displayUserTranscription :: "string \<Rightarrow> app \<Rightarrow> app" where
  "displayUserTranscription t s =
     (case updateLastPlaceholder t (chatContainer (ui s)) of
        None \<Rightarrow> s
      | Some bs \<Rightarrow> s\<lparr>ui := (ui s)\<lparr>chatContainer := bs\<rparr>\<rparr>)"

subsection \<open>speech.js functions\<close>

definition handleRecognitionStart :: "app \<Rightarrow> app" where
  "handleRecognitionStart s = s\<lparr>speech := (speech s)\<lparr>
     isRecognizing := True,
     recognitionRestartCount := 0,
     finalTranscript := [],
     interimTranscript := [],
     recognitionTimeout := True\<rparr>\<rparr>"

text \<open>
  The loop of \<open>handleRecognitionResult\<close> over \<open>event.results\<close> from \<open>event.resultIndex\<close>:
  each result is a pair of its \<open>isFinal\<close> flag and the transcript of its first
  alternative; the accumulator is the pair (finalTranscript, interimTranscript).
\<close>

fun processResults :: "(bool \<times> string) list \<Rightarrow> string \<times> string \<Rightarrow> string \<times> string" where
  "processResults [] acc = acc"
| "processResults ((isFinal, transcript) # rs) (fin, interim) =
     (if isFinal then processResults rs (fin @ transcript, interim)
      else processResults rs (fin, interim @ transcript))"

definition handleRecognitionResult :: "nat \<Rightarrow> (bool \<times> string) list \<Rightarrow> app \<Rightarrow> app" where
  "handleRecognitionResult resultIndex results s =
     (let (fin, interim) = processResults (drop resultIndex results) (finalTranscript (speech s), []);
          s1 = s\<lparr>speech := (speech s)\<lparr>finalTranscript := fin, interimTranscript := interim\<rparr>\<rparr>;
          fullTranscript = fin @ interim
      in displayUserTranscription (if fullTranscript = [] then LISTENING else fullTranscript) s1)"

definition handleRecognitionError :: "string \<Rightarrow> app \<Rightarrow> app" where
  "handleRecognitionError err s =
     (let s1 =
        (if err = ''no-speech'' then s
         else if err = ''aborted'' then s
         else if err = ''network'' then
           showError ''Network error occurred during speech recognition. Please check your connection.'' s
         else if err = ''not-allowed'' \<or> err = ''service-not-allowed'' then
           showError ''Microphone access denied. Please ensure you've given permission to use the microphone.'' s
         else showError (''Speech recognition error: '' @ err @ ''. Try using text input instead.'') s)
      in s1\<lparr>speech := (speech s1)\<lparr>isRecognizing := False, recognitionTimeout := False\<rparr>\<rparr>)"

text \<open>
  \<open>handleRecognitionEnd\<close>; the argument tells whether \<open>recognition.start()\<close> throws in
  the restart attempt (the exception is caught and the handler falls through).
\<close>

definition handleRecognitionEnd :: "bool \<Rightarrow> app \<Rightarrow> app" where
  "handleRecognitionEnd startThrows s =
     (let finish = (\<lambda>s. s\<lparr>speech := (speech s)\<lparr>isRecognizing := False, recognitionTimeout := False\<rparr>\<rparr>)
      in if isRecognizing (speech s) \<and> recognitionRestartCount (speech s) < MAX_RESTART_ATTEMPTS
         then (let s1 = s\<lparr>speech := (speech s)\<lparr>
                      recognitionRestartCount := recognitionRestartCount (speech s) + 1\<rparr>\<rparr>
               in if startThrows then finish s1 else s1)
         else finish s)"

definition startRecognition :: "app \<Rightarrow> bool \<times> app" where
  "startRecognition s =
     (if \<not> speechSupported (speech s) then
        (False, showError ''Your browser does not support Speech Recognition. Please use Chrome or try the text input option.'' s)
      else
        (True, s\<lparr>speech := (speech s)\<lparr>
           isRecognizing := False,
           recognitionRestartCount := 0,
           finalTranscript := [],
           interimTranscript := [],
           recognition := True\<rparr>\<rparr>))"

definition stopRecognition :: "app \<Rightarrow> app" where
  "stopRecognition s = s\<lparr>speech := (speech s)\<lparr>isRecognizing := False, recognitionTimeout := False\<rparr>\<rparr>"

definition getTranscription :: "app \<Rightarrow> string" where
  "getTranscription s = finalTranscript (speech s) @ interimTranscript (speech s)"

definition resetTranscription :: "app \<Rightarrow> app" where
  "resetTranscription s = s\<lparr>speech := (speech s)\<lparr>finalTranscript := [], interimTranscript := []\<rparr>\<rparr>"

definition initSpeechRecognition :: "app \<Rightarrow> app" where
  "initSpeechRecognition s =
     (if \<not> speechSupported (speech s) then
        showError ''Your browser does not support Speech Recognition. Please use Chrome or try the text input option.'' s
      else s\<lparr>speech := (speech s)\<lparr>recognition := True\<rparr>\<rparr>)"

text \<open>The callback of the 60 s ceiling timer armed by \<open>handleRecognitionStart\<close>.\<close>

definition recognitionTimeoutFired :: "app \<Rightarrow> app" where
  "recognitionTimeoutFired s =
     (let s1 = s\<lparr>speech := (speech s)\<lparr>recognitionTimeout := False\<rparr>\<rparr>
      in if isRecognizing (speech s1) then stopRecognition s1 else s1)"

subsection \<open>Recognizer events\<close>

text \<open>
  What can happen to the accumulator, one event at a time: the four callbacks installed
  on the recognizer instance (delivered only while an instance exists), the ceiling timer
  (only while armed), and the calls of the module's exported functions.
\<close>

datatype recognizer_event =
    RecognitionStarted
  | RecognitionResult nat "(bool \<times> string) list"
  | RecognitionError string
  | RecognitionEnded bool
  | RecognitionTimeout
  | SetupSpeechRecognition
  | StartRecognition
  | StopRecognition
  | ResetTranscription

fun speech_step :: "recognizer_event \<Rightarrow> app \<Rightarrow> app" where
  "speech_step RecognitionStarted s = (if recognition (speech s) then handleRecognitionStart s else s)"
| "speech_step (RecognitionResult i rs) s =
     (if recognition (speech s) then handleRecognitionResult i rs s else s)"
| "speech_step (RecognitionError e) s = (if recognition (speech s) then handleRecognitionError e s else s)"
| "speech_step (RecognitionEnded thr) s = (if recognition (speech s) then handleRecognitionEnd thr s else s)"
| "speech_step RecognitionTimeout s = (if recognitionTimeout (speech s) then recognitionTimeoutFired s else s)"
| "speech_step SetupSpeechRecognition s = initSpeechRecognition s"
| "speech_step StartRecognition s = snd (startRecognition s)"
| "speech_step StopRecognition s = stopRecognition s"
| "speech_step ResetTranscription s = resetTranscription s"

fun speech_run :: "recognizer_event list \<Rightarrow> app \<Rightarrow> app" where
  "speech_run [] s = s"
| "speech_run (e # es) s = speech_run es (speech_step e s)"

subsection \<open>ui.js: displaying a message by role\<close>

text \<open>
  \<open>displayAssistantMessage\<close> calls \<open>message.content.trim()\<close>, which throws a TypeError
  when the content is truthy but not a string, before anything is displayed.
\<close>

definition displayAssistantMessage :: "jsval \<Rightarrow> app \<Rightarrow> app completion" where
  "displayAssistantMessage c s =
     (case (if truthy c then c else JStr ''No message content'') of
        JStr t \<Rightarrow>
          (let s1 = hideLoading s;
               k = nodes (ui s1);
               s2 = appendChild MsgAssistant (trim t) s1;
               s3 = s2\<lparr>ui := (ui s2)\<lparr>currentAssistantMessageDiv := Some k\<rparr>\<rparr>
           in Returned (startSpeakingAnimation s3))
      | _ \<Rightarrow> Thrown s)"

definition displaySystemMessage :: "jsval \<Rightarrow> app \<Rightarrow> app" where
  "displaySystemMessage c s = appendChild MsgSystem (js_toString c) (hideLoading s)"

definition displayMessage :: "jsval \<Rightarrow> jsval \<Rightarrow> app \<Rightarrow> app completion" where
  "displayMessage r c s =
     (let r1 = (if truthy r then r else JStr ''system'');
          c1 = (if truthy c then c else JStr ''Empty message'')
      in if r1 = JStr ''assistant'' then displayAssistantMessage c1 s
         else if r1 = JStr ''user'' then Returned (displayUserMessage (js_toString c1) s)
         else if r1 = JStr ''system'' then Returned (displaySystemMessage c1 s)
         else Returned (displaySystemMessage c1 s))"

subsection \<open>audio.js: recording\<close>

definition is_recording :: "app \<Rightarrow> nat \<Rightarrow> bool" where
  "is_recording s r =
     (r < length (recorders (capture s)) \<and> rstate (recorders (capture s) ! r) = Recording)"

text \<open>
  \<open>MediaRecorder.stop()\<close> makes the recorder inactive at once and queues its
  \<open>dataavailable\<close> and \<open>stop\<close> events.
\<close>

definition MediaRecorder_stop :: "nat \<Rightarrow> app \<Rightarrow> app" where
  "MediaRecorder_stop r s = s\<lparr>capture := (capture s)\<lparr>recorders :=
     (recorders (capture s))[r := (recorders (capture s) ! r)\<lparr>rstate := Inactive, stopQueued := True\<rparr>]\<rparr>\<rparr>"

text \<open>
  The browser dispatches the queued events of recorder \<open>r\<close>: \<open>ondataavailable\<close> with the
  recorded blob, which is pushed to \<open>audioChunks\<close> when its size is positive, then
  \<open>onstop\<close>, which stops the tracks of the stream and hides the indicator.
\<close>

definition recorderStopped :: "nat \<Rightarrow> string \<Rightarrow> app \<Rightarrow> app" where
  "recorderStopped r blob s =
     (if r < length (recorders (capture s)) \<and> stopQueued (recorders (capture s) ! r)
      then s\<lparr>capture := (capture s)\<lparr>
             audioChunks := (if blob \<noteq> [] then audioChunks (capture s) @ [blob]
                             else audioChunks (capture s)),
             recorders := (recorders (capture s))[r := (recorders (capture s) ! r)\<lparr>
                             stopQueued := False, tracksLive := False\<rparr>],
             recordingIndicator := False\<rparr>\<rparr>
      else s)"

text \<open>
  \<open>stopRecording\<close>, the part that runs at the call: the result is the recorder whose
  \<open>stop\<close> event the returned promise waits for, or \<open>None\<close> when the promise is already
  resolved.
\<close>

definition stopRecording_sync :: "app \<Rightarrow> nat option \<times> app" where
  "stopRecording_sync s =
     (let hide = (\<lambda>s. s\<lparr>capture := (capture s)\<lparr>recordingIndicator := False\<rparr>\<rparr>)
      in case mediaRecorder (capture s) of
           None \<Rightarrow> (None, hide s)
         | Some r \<Rightarrow>
             if is_recording s r then (Some r, hide (MediaRecorder_stop r s))
             else (None, hide s))"

text \<open>
  \<open>await stopRecording()\<close>: the caller goes on when the promise is resolved, that is
  after the \<open>stop\<close> event of the recorder has been dispatched (with the blob recorded).
\<close>

definition stopRecording :: "string \<Rightarrow> app \<Rightarrow> app" where
  "stopRecording blob s =
     (case stopRecording_sync s of
        (None, s1) \<Rightarrow> s1
      | (Some r, s1) \<Rightarrow> recorderStopped r blob s1)"

text \<open>
  \<open>startRecording\<close> suspends twice. It first awaits \<open>stopRecording()\<close>. When that
  promise is resolved it resets the chunk list and asks for the microphone. When
  \<open>getUserMedia\<close> has settled (\<open>mic\<close> tells whether the microphone is granted; otherwise
  the promise is rejected and the catch block reports the error), it creates and starts
  the new recorder and makes it the current one. Constructing and starting a
  \<open>MediaRecorder\<close> on the fresh stream do not throw.
\<close>

definition startRecording_afterStop :: "app \<Rightarrow> app" where
  "startRecording_afterStop s = s\<lparr>capture := (capture s)\<lparr>audioChunks := []\<rparr>\<rparr>"

definition startRecording_afterMic :: "bool \<Rightarrow> app \<Rightarrow> bool \<times> app" where
  "startRecording_afterMic mic s =
     (if \<not> mic then
        (False, showError ''Error accessing microphone. Please ensure microphone access is enabled in your browser settings and try again.'' s)
      else
        (True, s\<lparr>capture := (capture s)\<lparr>
           recorders := recorders (capture s) @
             [\<lparr>rstate = Recording, stopQueued = False, tracksLive = True\<rparr>],
           mediaRecorder := Some (length (recorders (capture s))),
           recordingIndicator := True\<rparr>\<rparr>))"

text \<open>
  \<open>await startRecording()\<close>: the call run to its end, no other event being handled while
  it is suspended; \<open>blob\<close> is what a recorder that has to be stopped first has recorded.
\<close>

definition startRecording :: "bool \<Rightarrow> string \<Rightarrow> app \<Rightarrow> bool \<times> app" where
  "startRecording mic blob s =
     startRecording_afterMic mic (startRecording_afterStop (stopRecording blob s))"

text \<open>
  \<open>getRecordedAudioBase64\<close>: what the call starts, and the value its promise is resolved
  with, given the outcome of the \<open>FileReader\<close> (\<open>None\<close> for a read error, which the
  function catches and turns into \<open>null\<close>).
\<close>

definition getRecordedAudioBase64 :: "app \<Rightarrow> reading" where
  "getRecordedAudioBase64 s =
     (if audioChunks (capture s) = [] then NoChunks else Reading (audioChunks (capture s)))"

fun audioBase64_of :: "reading \<Rightarrow> string option \<Rightarrow> string option" where
  "audioBase64_of NoChunks result = None"
| "audioBase64_of (Reading chunks) result = result"

subsection \<open>audio.js: playback\<close>

definition formats :: "(string \<times> string) list" where
  "formats = [(''audio/mp3'', ''mp3''), (''audio/mpeg'', ''mp3''), (''audio/wav'', ''wav''),
     (''audio/x-wav'', ''wav''), (''audio/webm'', ''webm'')]"

definition audio_startSpeakingAnimation :: "app \<Rightarrow> app completion" where
  "audio_startSpeakingAnimation s =
     (if animationInScope (player s) then Returned (startSpeakingAnimation s) else Thrown s)"

definition audio_stopSpeakingAnimation :: "app \<Rightarrow> app completion" where
  "audio_stopSpeakingAnimation s =
     (if animationInScope (player s) then Returned (stopSpeakingAnimation s) else Thrown s)"

text \<open>
  The loop \<open>for (const format of formats)\<close>. Its body creates the blob and its object
  URL, installs the handlers (which capture \<open>format\<close>), sets the source, calls
  \<open>play()\<close>, starts the animation, and ends with an unconditional \<open>break\<close>: the rest of
  the list is not visited.
\<close>

fun tryFormats :: "(string \<times> string) list \<Rightarrow> app \<Rightarrow> app completion" where
  "tryFormats [] s = Returned s"
| "tryFormats (format # rest) s =
     (let s1 = s\<lparr>player := (player s)\<lparr>
                 urlsCreated := Suc (urlsCreated (player s)),
                 handlerFormat := Some format,
                 attempts := attempts (player s) @ [fst format]\<rparr>\<rparr>
      in case audio_startSpeakingAnimation s1 of
           Thrown s2 \<Rightarrow> Thrown s2
         | Returned s2 \<Rightarrow> Returned s2)"

definition playAudio_try :: "jsval \<Rightarrow> app \<Rightarrow> app completion" where
  "playAudio_try a s =
     (case a of
        JStr b \<Rightarrow>
          if trim b = [] then Returned s
          else (let cleanBase64 = (if startsWith b ''//'' then drop 2 b else b)
                in if \<not> atob_succeeds cleanBase64 then Thrown s
                   else tryFormats formats s)
      | _ \<Rightarrow> Returned s)"

definition playAudio :: "jsval \<Rightarrow> app \<Rightarrow> app completion" where
  "playAudio a s =
     (if \<not> truthy a then Returned s
      else case playAudio_try a s of
             Returned s1 \<Rightarrow> Returned s1
           | Thrown s1 \<Rightarrow> audio_stopSpeakingAnimation s1)"

definition revokeObjectURL :: "app \<Rightarrow> app" where
  "revokeObjectURL s = s\<lparr>player := (player s)\<lparr>urlsRevoked := Suc (urlsRevoked (player s))\<rparr>\<rparr>"

text \<open>
  The handlers installed on the player. An exception thrown inside a handler ends the
  handler; the state it leaves stays.
\<close>

definition audioPlayer_onended :: "app \<Rightarrow> app" where
  "audioPlayer_onended s =
     (case handlerFormat (player s) of
        None \<Rightarrow> s
      | Some format \<Rightarrow>
          (case audio_stopSpeakingAnimation s of
             Thrown s1 \<Rightarrow> s1
           | Returned s1 \<Rightarrow> revokeObjectURL s1))"

definition audioPlayer_onerror :: "app \<Rightarrow> app" where
  "audioPlayer_onerror s =
     (case handlerFormat (player s) of
        None \<Rightarrow> s
      | Some format \<Rightarrow>
          if format = last formats then
            (case audio_stopSpeakingAnimation s of
               Thrown s1 \<Rightarrow> s1
             | Returned s1 \<Rightarrow> revokeObjectURL s1)
          else revokeObjectURL s)"

subsection \<open>interview.js: the connection\<close>

fun andThen :: "'a completion \<Rightarrow> ('a \<Rightarrow> 'a completion) \<Rightarrow> 'a completion" where
  "andThen (Returned s) f = f s"
| "andThen (Thrown s) f = Thrown s"

text \<open>
  \<open>connectWebSocket\<close>, the part that runs at the call. The result tells whether a socket
  was constructed (the promise is then pending until the socket opens, errs or closes);
  otherwise the promise is rejected at once. An existing socket that is not closed is
  closed and replaced; events of replaced sockets are not followed.
\<close>

definition connectWebSocket :: "app \<Rightarrow> bool \<times> app" where
  "connectWebSocket s =
     (if interviewId (interview s) = None \<or> interviewId (interview s) = Some [] then
        (False, showError ''No interview ID provided'' s)
      else
        (True, s\<lparr>interview := (interview s)\<lparr>
           websocket := Some CONNECTING,
           sockets := Suc (sockets (interview s)),
           awaitingOpen := False\<rparr>\<rparr>))"

text \<open>
  \<open>startNewInterview\<close> as called by the upload form of the page script: up to
  \<open>await connectWebSocket()\<close>, with the script's catch block when the promise is
  rejected, and the part after the await, followed by the script's call of
  \<open>setupSpeechRecognition\<close>.
\<close>

definition startNewInterview :: "string \<Rightarrow> app \<Rightarrow> app" where
  "startNewInterview ident s =
     (let s1 = s\<lparr>interview := (interview s)\<lparr>interviewId := Some ident\<rparr>\<rparr>
      in case connectWebSocket s1 of
           (False, s2) \<Rightarrow> showError ''Error: undefined'' s2
         | (True, s2) \<Rightarrow> s2\<lparr>interview := (interview s2)\<lparr>awaitingOpen := True\<rparr>\<rparr>)"

definition startNewInterview_resume :: "app \<Rightarrow> app" where
  "startNewInterview_resume s =
     initSpeechRecognition (s\<lparr>interview := (interview s)\<lparr>viewInsightsBtn := False\<rparr>\<rparr>)"

definition websocket_onopen :: "app \<Rightarrow> app" where
  "websocket_onopen s =
     (let s1 = s\<lparr>interview := (interview s)\<lparr>websocket := Some OPEN, awaitingOpen := False\<rparr>\<rparr>
      in if awaitingOpen (interview s) then startNewInterview_resume s1 else s1)"

definition websocket_onerror :: "app \<Rightarrow> app" where
  "websocket_onerror s =
     (let s1 = s\<lparr>interview := (interview s)\<lparr>
                 consoleErrors := consoleErrors (interview s) @ [''WebSocket error:''],
                 awaitingOpen := False\<rparr>\<rparr>;
          s2 = showError ''Connection error. Please reload the page.'' s1
      in if awaitingOpen (interview s) then showError ''Error: undefined'' s2 else s2)"

definition websocket_onclose :: "nat \<Rightarrow> string \<Rightarrow> app \<Rightarrow> app" where
  "websocket_onclose code reason s =
     (let s1 = s\<lparr>interview := (interview s)\<lparr>websocket := Some CLOSED\<rparr>\<rparr>
      in if code \<noteq> 1000 then
           (let s2 = showError (''Connection closed: '' @
                       (if reason \<noteq> [] then reason else ''Unknown reason'')) s1;
                s3 = s2\<lparr>interview := (interview s2)\<lparr>awaitingOpen := False\<rparr>\<rparr>
            in if awaitingOpen (interview s) then showError ''Error: undefined'' s3 else s3)
         else s1)"

subsection \<open>interview.js: inbound messages\<close>

definition clearProcessing :: "app \<Rightarrow> app" where
  "clearProcessing s = hideLoading (s\<lparr>interview := (interview s)\<lparr>isProcessingResponse := False\<rparr>\<rparr>)"

text \<open>The body of the try block of \<open>handleWebSocketMessage\<close>.\<close>

definition handleWebSocketMessage_try :: "payload \<Rightarrow> app \<Rightarrow> app completion" where
  "handleWebSocketMessage_try p s =
     (case p of
        Unparseable \<Rightarrow> Thrown s
      | NonObject \<Rightarrow> Thrown s
      | Object m \<Rightarrow>
          (let r = (if truthy (role m) then role m else JStr ''system'');
               handled =
                 (if r = JStr ''assistant'' then
                    andThen (displayMessage (JStr ''assistant'') (content m) s) (\<lambda>s1.
                    andThen (if truthy (audio m) then playAudio (audio m) s1 else Returned s1) (\<lambda>s2.
                    Returned (clearProcessing s2)))
                  else if r = JStr ''system'' then
                    andThen (displayMessage (JStr ''system'')
                               (if truthy (content m) then content m else JStr ''System message'') s) (\<lambda>s1.
                    Returned (clearProcessing s1))
                  else if truthy (content m) then
                    andThen (displayMessage r (content m) s) (\<lambda>s1.
                    Returned (clearProcessing s1))
                  else Returned s)
           in andThen handled (\<lambda>s1.
                if truthy (interviewComplete m)
                then Returned (s1\<lparr>interview := (interview s1)\<lparr>viewInsightsBtn := True\<rparr>\<rparr>)
                else Returned s1)))"

definition handleWebSocketMessage :: "payload \<Rightarrow> app \<Rightarrow> app" where
  "handleWebSocketMessage p s =
     (case handleWebSocketMessage_try p s of
        Returned s1 \<Rightarrow> s1
      | Thrown s1 \<Rightarrow>
          (let s2 = s1\<lparr>interview := (interview s1)\<lparr>consoleErrors := consoleErrors (interview s1) @
                      [''Error handling WebSocket message:'', ''Raw message data:'']\<rparr>\<rparr>;
               s3 = hideLoading s2
           in s3\<lparr>interview := (interview s3)\<lparr>isProcessingResponse := False\<rparr>\<rparr>))"

subsection \<open>interview.js: submitting a turn\<close>

definition websocket_send :: "outmsg \<Rightarrow> app \<Rightarrow> app" where
  "websocket_send m s = s\<lparr>interview := (interview s)\<lparr>sent := sent (interview s) @ [m]\<rparr>\<rparr>"

text \<open>
  \<open>sendAudio\<close> once the guard has been passed, up to the call of
  \<open>getRecordedAudioBase64\<close>: the guard is set before the function can suspend.
\<close>

definition sendAudio_begin :: "app \<Rightarrow> app" where
  "sendAudio_begin s =
     showLoading (s\<lparr>interview := (interview s)\<lparr>isProcessingResponse := True, isRecording := False\<rparr>\<rparr>)"

text \<open>
  \<open>sendAudio\<close> after the await, with the value \<open>audioBase64\<close> the promise was resolved
  with. The transcript is read now. \<open>await connectWebSocket()\<close> is the last statement,
  so nothing happens when that promise settles.
\<close>

definition sendAudio_resume :: "string option \<Rightarrow> app \<Rightarrow> app" where
  "sendAudio_resume audioBase64 s =
     (let transcript = getTranscription s
      in if transcript = [] \<or> trim transcript = LISTENING \<or> trim transcript = [] then
           (let s1 = showError ''No speech detected. Please try again.'' (hideLoading s)
            in s1\<lparr>interview := (interview s1)\<lparr>isProcessingResponse := False\<rparr>\<rparr>)
         else
           (case displayMessage (JStr ''user'') (JStr transcript) (removePlaceholders s) of
              Thrown s1 \<Rightarrow> s1
            | Returned s1 \<Rightarrow>
                if websocket (interview s1) = Some OPEN then
                  resetTranscription (websocket_send
                    \<lparr>mtype = ''audio'',
                     mcontent = (case audioBase64 of None \<Rightarrow> [] | Some b \<Rightarrow> b),
                     transcription = Some transcript,
                     mvoiceStyle = voiceStyle (ui s1)\<rparr> s1)
                else
                  (let s2 = s1\<lparr>interview := (interview s1)\<lparr>
                              consoleErrors := consoleErrors (interview s1) @ [''WebSocket not open'']\<rparr>\<rparr>;
                       s3 = hideLoading s2;
                       s4 = s3\<lparr>interview := (interview s3)\<lparr>isProcessingResponse := False\<rparr>\<rparr>;
                       s5 = showError ''Connection lost. Please reload the page to reconnect.'' s4
                   in snd (connectWebSocket s5))))"

text \<open>
  \<open>handleTextSubmission\<close>. \<open>stopCurrentAudio\<close> only pauses the player, which has no
  counterpart in the state.
\<close>

definition handleTextSubmission :: "app \<Rightarrow> app" where
  "handleTextSubmission s =
     (let txt = trim (textResponseInput (interview s))
      in if txt = [] then s
         else if isProcessingResponse (interview s) then s
         else
           (let s1 = s\<lparr>interview := (interview s)\<lparr>isProcessingResponse := True\<rparr>\<rparr>;
                s2 = displayUserPlaceholder txt (showLoading s1)
            in if websocket (interview s2) = Some OPEN then
                 (let s3 = websocket_send
                        \<lparr>mtype = ''text'', mcontent = txt, transcription = None,
                         mvoiceStyle = voiceStyle (ui s2)\<rparr> s2
                  in s3\<lparr>interview := (interview s3)\<lparr>textResponseInput := []\<rparr>\<rparr>)
               else
                 (let s3 = hideLoading s2;
                      s4 = s3\<lparr>interview := (interview s3)\<lparr>isProcessingResponse := False\<rparr>\<rparr>
                  in showError ''Connection lost. Please reload the page to reconnect.'' s4)))"

text \<open>
  A call of \<open>sendAudio\<close>, as far as it runs before another event can be handled. With
  the guard set it returns at once. With no chunk, the awaited promise is already
  resolved and the function resumes in the same turn of the event loop, so it runs to its
  end. Otherwise it suspends until the \<open>FileReader\<close> has finished.
\<close>

definition sendAudio_call :: "app \<Rightarrow> app" where
  "sendAudio_call s =
     (if isProcessingResponse (interview s) then s
      else
        (let s1 = sendAudio_begin s
         in case getRecordedAudioBase64 s1 of
              NoChunks \<Rightarrow> sendAudio_resume None s1
            | Reading chunks \<Rightarrow>
                s1\<lparr>interview := (interview s1)\<lparr>
                  pendingAudio := pendingAudio (interview s1) @ [chunks]\<rparr>\<rparr>))"

text \<open>
  \<open>sendAudio\<close> from call to return when no other event is handled while it is suspended;
  \<open>result\<close> is the outcome of the \<open>FileReader\<close>, if one is started.
\<close>

definition sendAudio :: "string option \<Rightarrow> app \<Rightarrow> app" where
  "sendAudio result s =
     (if isProcessingResponse (interview s) then s
      else
        (let s1 = sendAudio_begin s
         in sendAudio_resume (audioBase64_of (getRecordedAudioBase64 s1) result) s1))"

subsection \<open>interview.js: the recording buttons\<close>

text \<open>
  The click handler of the start button, run to its end: \<open>mic\<close> tells whether the
  microphone is granted and \<open>blob\<close> is what a recorder that has to be stopped first has
  recorded.
\<close>

definition startRecording_click :: "bool \<Rightarrow> string \<Rightarrow> app \<Rightarrow> app" where
  "startRecording_click mic blob s =
     (if isRecording (interview s) \<or> isProcessingResponse (interview s) then s
      else
        (let s1 = stopRecognition (stopRecording blob s);
             s2 = s1\<lparr>interview := (interview s1)\<lparr>isRecording := True\<rparr>\<rparr>;
             s3 = displayUserPlaceholder LISTENING s2;
             s4 = s3\<lparr>interview := (interview s3)\<lparr>
                    stopDisabled := False,
                    startDisabled := True,
                    autoStopTimers := Suc (autoStopTimers (interview s3))\<rparr>\<rparr>;
             (recordingStarted, s5) = startRecording mic blob s4;
             (recognitionStarted, s6) = startRecognition s5
         in if \<not> recordingStarted \<or> \<not> recognitionStarted then
              showError ''Failed to start recording. Please check microphone access and browser permissions.''
                (s6\<lparr>interview := (interview s6)\<lparr>
                   autoStopTimers := autoStopTimers (interview s6) - 1,
                   isRecording := False,
                   startDisabled := False,
                   stopDisabled := True\<rparr>\<rparr>)
            else s6))"

text \<open>
  The click handler of the stop button. \<open>stopRecording()\<close> is called without
  \<open>await\<close>, and \<open>sendAudio\<close> is scheduled 100 ms later.
\<close>

definition stopRecording_click :: "app \<Rightarrow> app" where
  "stopRecording_click s =
     (if \<not> isRecording (interview s) then s
      else
        (let s1 = s\<lparr>interview := (interview s)\<lparr>startDisabled := False, stopDisabled := True\<rparr>\<rparr>;
             s2 = snd (stopRecording_sync (stopRecognition s1))
         in s2\<lparr>interview := (interview s2)\<lparr>sendTimers := Suc (sendTimers (interview s2))\<rparr>\<rparr>))"

text \<open>
  The callback of the 30 s timer: it clicks the stop button, and a click on a disabled
  button is not dispatched.
\<close>

definition autoStopFired :: "app \<Rightarrow> app" where
  "autoStopFired s =
     (let s1 = s\<lparr>interview := (interview s)\<lparr>autoStopTimers := autoStopTimers (interview s) - 1\<rparr>\<rparr>
      in if isRecording (interview s1) \<and> \<not> stopDisabled (interview s1)
         then stopRecording_click s1 else s1)"

section \<open>The page as an event-driven machine\<close>

text \<open>
  Everything that can happen to the page, one event at a time, in arrival order: the
  upload form delivers an interview id; the socket opens, errs, closes or delivers a
  frame; the recognizer calls back; the user clicks a recording button, types into the
  text box or submits it; a timer fires; the \<open>FileReader\<close> of a suspended \<open>sendAudio\<close>
  finishes; a recorder's queued stop events are dispatched; the player ends or fails.
  An event is delivered only where the browser can deliver it (a frame on an open socket,
  a click on an enabled button, a timer that is armed); otherwise it changes nothing.
\<close>

datatype event =
    UploadSucceeded string
  | SocketOpen
  | SocketError
  | SocketClose nat string
  | SocketMessage payload
  | Recognizer recognizer_event
  | StartClick bool string
  | StopClick
  | AutoStopTimer
  | SendAudioTimer
  | AudioEncoded "string option"
  | TypeText string
  | SubmitText
  | RecorderStopEvent nat string
  | PlaybackEnded
  | PlaybackError

fun step :: "event \<Rightarrow> app \<Rightarrow> app" where
  "step (UploadSucceeded ident) s = startNewInterview ident s"
| "step SocketOpen s =
     (if websocket (interview s) = Some CONNECTING then websocket_onopen s else s)"
| "step SocketError s =
     (if websocket (interview s) \<noteq> None then websocket_onerror s else s)"
| "step (SocketClose code reason) s =
     (if websocket (interview s) \<noteq> None \<and> websocket (interview s) \<noteq> Some CLOSED
      then websocket_onclose code reason s else s)"
| "step (SocketMessage p) s =
     (if websocket (interview s) = Some OPEN then handleWebSocketMessage p s else s)"
| "step (Recognizer e) s = speech_step e s"
| "step (StartClick mic blob) s =
     (if startDisabled (interview s) then s else startRecording_click mic blob s)"
| "step StopClick s =
     (if stopDisabled (interview s) then s else stopRecording_click s)"
| "step AutoStopTimer s =
     (if 0 < autoStopTimers (interview s) then autoStopFired s else s)"
| "step SendAudioTimer s =
     (if 0 < sendTimers (interview s)
      then sendAudio_call (s\<lparr>interview := (interview s)\<lparr>sendTimers := sendTimers (interview s) - 1\<rparr>\<rparr>)
      else s)"
| "step (AudioEncoded result) s =
     (case pendingAudio (interview s) of
        [] \<Rightarrow> s
      | chunks # rest \<Rightarrow>
          sendAudio_resume result (s\<lparr>interview := (interview s)\<lparr>pendingAudio := rest\<rparr>\<rparr>))"
| "step (TypeText t) s = s\<lparr>interview := (interview s)\<lparr>textResponseInput := t\<rparr>\<rparr>"
| "step SubmitText s = handleTextSubmission s"
| "step (RecorderStopEvent r blob) s = recorderStopped r blob s"
| "step PlaybackEnded s = audioPlayer_onended s"
| "step PlaybackError s = audioPlayer_onerror s"

fun run :: "event list \<Rightarrow> app \<Rightarrow> app" where
  "run [] s = s"
| "run (e # es) s = run es (step e s)"

text \<open>The events that deliver an inbound frame, and those that start a new interview.\<close>

fun is_inbound :: "event \<Rightarrow> bool" where
  "is_inbound (SocketMessage p) = True"
| "is_inbound e = False"

fun is_upload :: "event \<Rightarrow> bool" where
  "is_upload (UploadSucceeded ident) = True"
| "is_upload e = False"

section \<open>The capture buffer under sequences of calls\<close>

text \<open>
  A sequence of calls of the two exported functions, each awaited before the next is
  made. A recorder is active as long as it records, its stop events are still queued, or
  the tracks of its stream are live.
\<close>

datatype capture_call = StartRecordingCall bool string | StopRecordingCall string

fun capture_step :: "capture_call \<Rightarrow> app \<Rightarrow> app" where
  "capture_step (StartRecordingCall mic blob) s = snd (startRecording mic blob s)"
| "capture_step (StopRecordingCall blob) s = stopRecording blob s"

fun capture_run :: "capture_call list \<Rightarrow> app \<Rightarrow> app" where
  "capture_run [] s = s"
| "capture_run (c # cs) s = capture_run cs (capture_step c s)"

definition active :: "recorder \<Rightarrow> bool" where
  "active r = (rstate r = Recording \<or> stopQueued r \<or> tracksLive r)"

section \<open>The state at module load\<close>

definition ui_load :: ui where
  "ui_load = \<lparr>loadingMessage = False, errorAlert = [], chatContainer = [],
     currentAssistantMessageDiv = None, nodes = 0, voiceStyle = ''Nova''\<rparr>"

definition speech_load :: "bool \<Rightarrow> speech" where
  "speech_load supported = \<lparr>recognition = False, interimTranscript = [], finalTranscript = [],
     isRecognizing = False, recognitionTimeout = False, recognitionRestartCount = 0,
     speechSupported = supported\<rparr>"

definition capture_load :: capture where
  "capture_load = \<lparr>recorders = [], mediaRecorder = None, audioChunks = [],
     recordingIndicator = False\<rparr>"

definition player_load :: "bool \<Rightarrow> player" where
  "player_load bound = \<lparr>attempts = [], handlerFormat = None, urlsCreated = 0,
     urlsRevoked = 0, animationInScope = bound\<rparr>"

definition interview_load :: interview where
  "interview_load = \<lparr>websocket = None, interviewId = None, isProcessingResponse = False,
     isRecording = False, viewInsightsBtn = False, textResponseInput = [], sent = [],
     sockets = 0, pendingAudio = [], startDisabled = False, stopDisabled = True,
     awaitingOpen = False, sendTimers = 0, autoStopTimers = 0, consoleErrors = []\<rparr>"

text \<open>
  The state when the modules have been loaded and \<open>DOMContentLoaded\<close> has run, for a
  browser with or without speech recognition, and with or without the animation functions
  bound in audio.js.
\<close>

definition app_load :: "bool \<Rightarrow> bool \<Rightarrow> app" where
  "app_load supported bound = \<lparr>ui = ui_load, speech = speech_load supported,
     capture = capture_load, player = player_load bound, interview = interview_load\<rparr>"

section \<open>Unfolding the definitions\<close>

lemmas ui_defs = showError_def showLoading_def hideLoading_def appendChild_def
  startSpeakingAnimation_def stopSpeakingAnimation_def displayUserMessage_def
  removePlaceholders_def displayUserPlaceholder_def displaySystemMessage_def

lemmas load_defs = app_load_def ui_load_def speech_load_def capture_load_def player_load_def
  interview_load_def

lemmas speech_defs = handleRecognitionStart_def handleRecognitionResult_def
  handleRecognitionError_def handleRecognitionEnd_def startRecognition_def stopRecognition_def
  getTranscription_def resetTranscription_def initSpeechRecognition_def
  recognitionTimeoutFired_def displayUserTranscription_def MAX_RESTART_ATTEMPTS_def

lemmas capture_defs = is_recording_def MediaRecorder_stop_def recorderStopped_def
  stopRecording_sync_def stopRecording_def startRecording_def startRecording_afterStop_def
  startRecording_afterMic_def getRecordedAudioBase64_def

lemmas interview_defs = connectWebSocket_def startNewInterview_def startNewInterview_resume_def
  websocket_onopen_def websocket_onerror_def websocket_onclose_def clearProcessing_def
  handleWebSocketMessage_try_def handleWebSocketMessage_def websocket_send_def
  sendAudio_begin_def sendAudio_call_def sendAudio_resume_def handleTextSubmission_def
  sendAudio_def
  startRecording_click_def stopRecording_click_def autoStopFired_def displayMessage_def
  displayAssistantMessage_def

lemmas player_defs = audio_startSpeakingAnimation_def audio_stopSpeakingAnimation_def
  playAudio_try_def playAudio_def revokeObjectURL_def audioPlayer_onended_def
  audioPlayer_onerror_def formats_def

section \<open>Transcription accumulator: restarts\<close>

lemma displayUserTranscription_speech [simp]:
  "speech (displayUserTranscription t s) = speech s"
  by (simp add: displayUserTranscription_def split: option.splits)

lemma showError_speech [simp]: "speech (showError m s) = speech s"
  by (simp add: showError_def)

lemma speech_step_count:
  "recognitionRestartCount (speech s) \<le> MAX_RESTART_ATTEMPTS \<Longrightarrow>
   recognitionRestartCount (speech (speech_step e s)) \<le> MAX_RESTART_ATTEMPTS"
  by (cases e)
     (auto simp: handleRecognitionStart_def handleRecognitionResult_def handleRecognitionError_def
        handleRecognitionEnd_def recognitionTimeoutFired_def stopRecognition_def
        startRecognition_def resetTranscription_def initSpeechRecognition_def Let_def
        split: prod.splits)

lemma speech_run_count:
  "recognitionRestartCount (speech s) \<le> MAX_RESTART_ATTEMPTS \<Longrightarrow>
   recognitionRestartCount (speech (speech_run es s)) \<le> MAX_RESTART_ATTEMPTS"
  by (induction es arbitrary: s) (simp_all add: speech_step_count)

lemma handleRecognitionEnd_final:
  "finalTranscript (speech (handleRecognitionEnd thr s)) = finalTranscript (speech s)"
  by (simp add: handleRecognitionEnd_def Let_def)

lemma handleRecognitionEnd_cap:
  "MAX_RESTART_ATTEMPTS \<le> recognitionRestartCount (speech s) \<Longrightarrow>
   \<not> isRecognizing (speech (handleRecognitionEnd thr s)) \<and>
   recognitionRestartCount (speech (handleRecognitionEnd thr s)) = recognitionRestartCount (speech s)"
  by (simp add: handleRecognitionEnd_def Let_def)

lemma processResults_extends: "\<exists>x. fst (processResults rs (f, i)) = f @ x"
proof (induction rs arbitrary: f i)
  case Nil
  then show ?case by simp
next
  case (Cons r rs)
  obtain b t where r: "r = (b, t)" by (cases r)
  show ?case
  proof (cases b)
    case True
    from Cons.IH [of "f @ t" i] obtain x where "fst (processResults rs (f @ t, i)) = (f @ t) @ x" by blast
    then show ?thesis using r True by simp
  next
    case False
    from Cons.IH [of f "i @ t"] show ?thesis using r False by simp
  qed
qed

lemma handleRecognitionResult_speech:
  "recognition (speech (handleRecognitionResult i rs s)) = recognition (speech s) \<and>
   isRecognizing (speech (handleRecognitionResult i rs s)) = isRecognizing (speech s) \<and>
   recognitionRestartCount (speech (handleRecognitionResult i rs s)) = recognitionRestartCount (speech s) \<and>
   (\<exists>x. finalTranscript (speech (handleRecognitionResult i rs s)) = finalTranscript (speech s) @ x)"
proof -
  obtain fin interim where p: "processResults (drop i rs) (finalTranscript (speech s), []) = (fin, interim)"
    by (cases "processResults (drop i rs) (finalTranscript (speech s), [])")
  from processResults_extends [of "drop i rs" "finalTranscript (speech s)" "[]"] p
  obtain x where "fin = finalTranscript (speech s) @ x" by auto
  then show ?thesis by (simp add: handleRecognitionResult_def p Let_def)
qed

lemma speech_run_append: "speech_run (as @ bs) s = speech_run bs (speech_run as s)"
  by (induction as arbitrary: s) simp_all

lemma results_run:
  assumes "recognition (speech s)"
  shows "recognition (speech (speech_run (map (\<lambda>(i, r). RecognitionResult i r) rs) s)) \<and>
     isRecognizing (speech (speech_run (map (\<lambda>(i, r). RecognitionResult i r) rs) s)) = isRecognizing (speech s) \<and>
     recognitionRestartCount (speech (speech_run (map (\<lambda>(i, r). RecognitionResult i r) rs) s)) =
       recognitionRestartCount (speech s) \<and>
     (\<exists>x. finalTranscript (speech (speech_run (map (\<lambda>(i, r). RecognitionResult i r) rs) s)) =
        finalTranscript (speech s) @ x)"
  using assms
proof (induction rs arbitrary: s)
  case Nil
  then show ?case by simp
next
  case (Cons a rs)
  obtain i r where a: "a = (i, r)" by (cases a)
  let ?t = "handleRecognitionResult i r s"
  note h = handleRecognitionResult_speech [of i r s]
  from h Cons.prems have rec: "recognition (speech ?t)" by simp
  from h obtain x where x: "finalTranscript (speech ?t) = finalTranscript (speech s) @ x" by blast
  from Cons.IH [OF rec] obtain y where
    y: "recognition (speech (speech_run (map (\<lambda>(i, r). RecognitionResult i r) rs) ?t))"
       "isRecognizing (speech (speech_run (map (\<lambda>(i, r). RecognitionResult i r) rs) ?t)) = isRecognizing (speech ?t)"
       "recognitionRestartCount (speech (speech_run (map (\<lambda>(i, r). RecognitionResult i r) rs) ?t)) =
          recognitionRestartCount (speech ?t)"
       "finalTranscript (speech (speech_run (map (\<lambda>(i, r). RecognitionResult i r) rs) ?t)) =
          finalTranscript (speech ?t) @ y" by blast
  have st: "speech_run (map (\<lambda>(i, r). RecognitionResult i r) (a # rs)) s =
      speech_run (map (\<lambda>(i, r). RecognitionResult i r) rs) ?t"
    using a Cons.prems by simp
  show ?case unfolding st using y h x by auto
qed

lemma last_restart_then_cap:
  assumes "recognition (speech s)" and "isRecognizing (speech s)"
    and "recognitionRestartCount (speech s) = 2"
  shows "\<not> isRecognizing (speech (speech_run (RecognitionEnded False #
             map (\<lambda>(i, r). RecognitionResult i r) rs @ [RecognitionEnded thr]) s)) \<and>
     recognitionRestartCount (speech (speech_run (RecognitionEnded False #
             map (\<lambda>(i, r). RecognitionResult i r) rs @ [RecognitionEnded thr]) s)) = 3 \<and>
     take (length (finalTranscript (speech s))) (finalTranscript (speech (speech_run (RecognitionEnded False #
             map (\<lambda>(i, r). RecognitionResult i r) rs @ [RecognitionEnded thr]) s))) =
       finalTranscript (speech s)"
proof -
  let ?a = "handleRecognitionEnd False s"
  have a: "recognition (speech ?a)" "isRecognizing (speech ?a)" "recognitionRestartCount (speech ?a) = 3"
    "finalTranscript (speech ?a) = finalTranscript (speech s)"
    using assms by (simp_all add: handleRecognitionEnd_def MAX_RESTART_ATTEMPTS_def Let_def)
  let ?b = "speech_run (map (\<lambda>(i, r). RecognitionResult i r) rs) ?a"
  from results_run [OF a(1), of rs] a obtain x where
    b: "recognition (speech ?b)" "isRecognizing (speech ?b)" "recognitionRestartCount (speech ?b) = 3"
       "finalTranscript (speech ?b) = finalTranscript (speech s) @ x" by auto
  have run: "speech_run (RecognitionEnded False #
             map (\<lambda>(i, r). RecognitionResult i r) rs @ [RecognitionEnded thr]) s = handleRecognitionEnd thr ?b"
    using assms(1) b(1) by (simp add: speech_run_append)
  show ?thesis
    unfolding run using b
    by (simp add: handleRecognitionEnd_def MAX_RESTART_ATTEMPTS_def Let_def)
qed

text \<open>
  The variable \<open>recognitionRestartCount\<close>. For every sequence of recognizer events from the
  state at module load it is at most 3. When the recognizer ends with the variable at 3,
  the accumulator becomes idle and the variable stays; no branch of
  \<open>handleRecognitionEnd\<close> changes \<open>finalTranscript\<close>. From any state in which the
  accumulator is active with the variable at 2, an end, any results, and a further end
  leave the accumulator idle with \<open>finalTranscript\<close> beginning with all it held before,
  provided no start event arrives in between.
\<close>

lemma restart_counter_bounded:
  "recognitionRestartCount (speech (speech_run es (app_load supp bound))) \<le> 3 \<and>
   finalTranscript (speech (handleRecognitionEnd thr (speech_run es (app_load supp bound))))
     = finalTranscript (speech (speech_run es (app_load supp bound))) \<and>
   (recognitionRestartCount (speech (speech_run es (app_load supp bound))) = 3 \<longrightarrow>
      \<not> isRecognizing (speech (handleRecognitionEnd thr (speech_run es (app_load supp bound)))) \<and>
      recognitionRestartCount (speech (handleRecognitionEnd thr (speech_run es (app_load supp bound)))) = 3) \<and>
   (recognition (speech s) \<and> isRecognizing (speech s) \<and> recognitionRestartCount (speech s) = 2 \<longrightarrow>
      \<not> isRecognizing (speech (speech_run (RecognitionEnded False #
             map (\<lambda>(i, r). RecognitionResult i r) rs @ [RecognitionEnded thr']) s)) \<and>
      recognitionRestartCount (speech (speech_run (RecognitionEnded False #
             map (\<lambda>(i, r). RecognitionResult i r) rs @ [RecognitionEnded thr']) s)) = 3 \<and>
      take (length (finalTranscript (speech s))) (finalTranscript (speech (speech_run (RecognitionEnded False #
             map (\<lambda>(i, r). RecognitionResult i r) rs @ [RecognitionEnded thr']) s))) =
        finalTranscript (speech s))"
proof -
  let ?s = "speech_run es (app_load supp bound)"
  have "recognitionRestartCount (speech (app_load supp bound)) \<le> MAX_RESTART_ATTEMPTS"
    by (simp add: app_load_def speech_load_def)
  then have "recognitionRestartCount (speech ?s) \<le> MAX_RESTART_ATTEMPTS"
    by (rule speech_run_count)
  then have bound: "recognitionRestartCount (speech ?s) \<le> 3"
    by (simp add: MAX_RESTART_ATTEMPTS_def)
  have cap: "recognitionRestartCount (speech ?s) = 3 \<longrightarrow>
      \<not> isRecognizing (speech (handleRecognitionEnd thr ?s)) \<and>
      recognitionRestartCount (speech (handleRecognitionEnd thr ?s)) = 3"
    using handleRecognitionEnd_cap [of ?s thr] by (simp add: MAX_RESTART_ATTEMPTS_def)
  have round: "recognition (speech s) \<and> isRecognizing (speech s) \<and>
      recognitionRestartCount (speech s) = 2 \<longrightarrow>
      \<not> isRecognizing (speech (speech_run (RecognitionEnded False #
             map (\<lambda>(i, r). RecognitionResult i r) rs @ [RecognitionEnded thr']) s)) \<and>
      recognitionRestartCount (speech (speech_run (RecognitionEnded False #
             map (\<lambda>(i, r). RecognitionResult i r) rs @ [RecognitionEnded thr']) s)) = 3 \<and>
      take (length (finalTranscript (speech s))) (finalTranscript (speech (speech_run (RecognitionEnded False #
             map (\<lambda>(i, r). RecognitionResult i r) rs @ [RecognitionEnded thr']) s))) =
        finalTranscript (speech s)"
    using last_restart_then_cap [of s rs thr'] by blast
  show ?thesis
    using bound cap handleRecognitionEnd_final [of thr ?s] round by blast
qed

text \<open>
  A restart that succeeds makes the recognizer fire its start event, and
  \<open>handleRecognitionStart\<close> sets \<open>recognitionRestartCount\<close> back to 0. So an active
  accumulator with the variable at 0 is back in the same condition after an end followed
  by a start, however many times this is repeated.
\<close>

lemma restart_round:
  assumes "recognition (speech s)" and "isRecognizing (speech s)"
    and "recognitionRestartCount (speech s) = 0"
  shows "recognition (speech (speech_run [RecognitionEnded False, RecognitionStarted] s)) \<and>
     isRecognizing (speech (speech_run [RecognitionEnded False, RecognitionStarted] s)) \<and>
     recognitionRestartCount (speech (speech_run [RecognitionEnded False, RecognitionStarted] s)) = 0 \<and>
     finalTranscript (speech (speech_run [RecognitionEnded False, RecognitionStarted] s)) = []"
  using assms
  by (simp add: handleRecognitionEnd_def handleRecognitionStart_def MAX_RESTART_ATTEMPTS_def Let_def)

lemma restart_rounds_unbounded:
  assumes "recognition (speech s)" and "isRecognizing (speech s)"
    and "recognitionRestartCount (speech s) = 0"
  shows "recognition (speech (speech_run
       (concat (replicate n [RecognitionEnded False, RecognitionStarted])) s)) \<and>
     isRecognizing (speech (speech_run
       (concat (replicate n [RecognitionEnded False, RecognitionStarted])) s)) \<and>
     recognitionRestartCount (speech (speech_run
       (concat (replicate n [RecognitionEnded False, RecognitionStarted])) s)) = 0"
  using assms
proof (induction n arbitrary: s)
  case 0
  then show ?case by simp
next
  case (Suc n)
  let ?t = "speech_run [RecognitionEnded False, RecognitionStarted] s"
  from restart_round [OF Suc.prems]
  have t: "recognition (speech ?t)" "isRecognizing (speech ?t)"
    "recognitionRestartCount (speech ?t) = 0" by simp_all
  have r: "speech_run (concat (replicate (Suc n) [RecognitionEnded False, RecognitionStarted])) s =
      speech_run (concat (replicate n [RecognitionEnded False, RecognitionStarted])) ?t"
    by simp
  show ?case unfolding r by (rule Suc.IH [OF t])
qed

text \<open>
  C1. The restarts are not capped at 3, and the text accumulated before a restart is not
  preserved. The recognizer is set up and started, delivers the final result "hello", and
  then ends by itself; the restart succeeds, so its start event follows. At that event
  \<open>handleRecognitionStart\<close> sets the counter back to 0 and empties \<open>finalTranscript\<close>: the
  text "hello" is gone. After five such ends, each restarted with success, a sixth end
  finds the counter at 0 again and restarts once more: the accumulator is still active,
  the counter is 1, and the transcript is empty.
\<close>

theorem restarts_not_capped_transcript_lost:
  "finalTranscript (speech (speech_run
      [SetupSpeechRecognition, RecognitionStarted, RecognitionResult 0 [(True, ''hello'')]]
      (app_load True True))) = ''hello'' \<and>
   finalTranscript (speech (speech_run
      [SetupSpeechRecognition, RecognitionStarted, RecognitionResult 0 [(True, ''hello'')],
       RecognitionEnded False, RecognitionStarted]
      (app_load True True))) = [] \<and>
   recognitionRestartCount (speech (speech_run
      [SetupSpeechRecognition, RecognitionStarted, RecognitionResult 0 [(True, ''hello'')],
       RecognitionEnded False, RecognitionStarted]
      (app_load True True))) = 0 \<and>
   isRecognizing (speech (speech_run
      [SetupSpeechRecognition, RecognitionStarted, RecognitionResult 0 [(True, ''hello'')],
       RecognitionEnded False, RecognitionStarted, RecognitionEnded False, RecognitionStarted,
       RecognitionEnded False, RecognitionStarted, RecognitionEnded False, RecognitionStarted,
       RecognitionEnded False, RecognitionStarted, RecognitionEnded False]
      (app_load True True))) \<and>
   recognitionRestartCount (speech (speech_run
      [SetupSpeechRecognition, RecognitionStarted, RecognitionResult 0 [(True, ''hello'')],
       RecognitionEnded False, RecognitionStarted, RecognitionEnded False, RecognitionStarted,
       RecognitionEnded False, RecognitionStarted, RecognitionEnded False, RecognitionStarted,
       RecognitionEnded False, RecognitionStarted, RecognitionEnded False]
      (app_load True True))) = 1 \<and>
   finalTranscript (speech (speech_run
      [SetupSpeechRecognition, RecognitionStarted, RecognitionResult 0 [(True, ''hello'')],
       RecognitionEnded False, RecognitionStarted, RecognitionEnded False, RecognitionStarted,
       RecognitionEnded False, RecognitionStarted, RecognitionEnded False, RecognitionStarted,
       RecognitionEnded False, RecognitionStarted, RecognitionEnded False]
      (app_load True True))) = []"
  by (simp add: app_load_def speech_load_def ui_load_def initSpeechRecognition_def
      handleRecognitionStart_def handleRecognitionResult_def handleRecognitionEnd_def
      MAX_RESTART_ATTEMPTS_def Let_def)

section \<open>Inbound messages\<close>

text \<open>
  C4. When \<open>JSON.parse\<close> fails on an inbound frame, the handler's catch block writes the
  error to the console (no alert is shown to the user, nothing is rethrown), hides the
  loading indicator and clears \<open>isProcessingResponse\<close>; nothing else changes. So the
  guard is free after a parse failure, whatever it was before.
\<close>

theorem parse_failure_clears_guard:
  "\<not> isProcessingResponse (interview (handleWebSocketMessage Unparseable s)) \<and>
   \<not> loadingMessage (ui (handleWebSocketMessage Unparseable s)) \<and>
   consoleErrors (interview (handleWebSocketMessage Unparseable s)) =
     consoleErrors (interview s) @ [''Error handling WebSocket message:'', ''Raw message data:''] \<and>
   errorAlert (ui (handleWebSocketMessage Unparseable s)) = errorAlert (ui s) \<and>
   handleWebSocketMessage Unparseable s =
     s\<lparr>ui := (ui s)\<lparr>loadingMessage := False\<rparr>,
       interview := (interview s)\<lparr>
         consoleErrors := consoleErrors (interview s) @
           [''Error handling WebSocket message:'', ''Raw message data:''],
         isProcessingResponse := False\<rparr>\<rparr>"
  by (simp add: handleWebSocketMessage_def handleWebSocketMessage_try_def hideLoading_def Let_def)

text \<open>
  C9. An inbound message is a JSON object. When its \<open>role\<close> is absent (or otherwise falsy)
  the handler treats it exactly as the same message with role \<open>system\<close>: it is not
  rejected (nothing is thrown, no alert), a system bubble is appended to the chat, and the
  guard and the loading indicator are cleared. The bubble's \<open>innerHTML\<close> is the paragraph
  markup around the content converted to a string by JavaScript's rules, or around the
  text "System message" when the content is absent or otherwise falsy.
\<close>

theorem missing_role_defaults_to_system:
  assumes "\<not> truthy (role m)"
  shows "handleWebSocketMessage (Object m) s =
       handleWebSocketMessage (Object (m\<lparr>role := JStr ''system''\<rparr>)) s \<and>
     chatContainer (ui (handleWebSocketMessage (Object m) s)) = chatContainer (ui s) @
       [\<lparr>node = nodes (ui s), cls = MsgSystem,
         pElement = Markup (js_toString
           (if truthy (content m) then content m else JStr ''System message'')),
         speaking = False\<rparr>] \<and>
     \<not> isProcessingResponse (interview (handleWebSocketMessage (Object m) s)) \<and>
     \<not> loadingMessage (ui (handleWebSocketMessage (Object m) s)) \<and>
     consoleErrors (interview (handleWebSocketMessage (Object m) s)) = consoleErrors (interview s) \<and>
     errorAlert (ui (handleWebSocketMessage (Object m) s)) = errorAlert (ui s)"
  using assms
  by (simp add: handleWebSocketMessage_def handleWebSocketMessage_try_def Let_def displayMessage_def
      clearProcessing_def ui_defs)

theorem missing_role_defaults_to_system_witness:
  "\<not> truthy (role \<lparr>role = JUndefined, content = JStr ''Welcome'', audio = JUndefined,
         interviewComplete = JUndefined\<rparr>) \<and>
   chatContainer (ui (handleWebSocketMessage
      (Object \<lparr>role = JUndefined, content = JStr ''Welcome'', audio = JUndefined,
         interviewComplete = JUndefined\<rparr>) (app_load True True))) =
     [\<lparr>node = 0, cls = MsgSystem, pElement = Markup ''Welcome'', speaking = False\<rparr>]"
proof -
  let ?m = "\<lparr>role = JUndefined, content = JStr ''Welcome'', audio = JUndefined,
         interviewComplete = JUndefined\<rparr>"
  have h: "\<not> truthy (role ?m)" by simp
  note t = missing_role_defaults_to_system [OF h, of "app_load True True", THEN conjunct2, THEN conjunct1]
  from h t show ?thesis by (simp add: load_defs)
qed

text \<open>
  A frame that parses to \<open>null\<close> or to a primitive is not a message; the handler's
  accesses to it throw, and it ends in the catch block like a frame that does not parse.
\<close>

lemma non_object_frame_caught:
  "handleWebSocketMessage NonObject s = handleWebSocketMessage Unparseable s"
  by (simp add: handleWebSocketMessage_def handleWebSocketMessage_try_def)

section \<open>Submitting a recorded turn\<close>

lemma trim_blank: "\<forall>c\<in>set t. js_whitespace c \<Longrightarrow> trim t = []"
proof -
  assume "\<forall>c\<in>set t. js_whitespace c"
  then have h: "dropWhile js_whitespace t = []" by (simp only: dropWhile_eq_Nil_conv)
  show ?thesis by (simp only: trim_def h rev.simps dropWhile.simps)
qed

lemma trim_LISTENING: "trim LISTENING = LISTENING"
  by (simp add: trim_def LISTENING_def js_whitespace_def)

lemma trim_hello: "trim ''hello'' = ''hello''"
  by (simp add: trim_def js_whitespace_def)

lemma no_speech_cond:
  "getTranscription s = [] \<or> (\<forall>c\<in>set (getTranscription s). js_whitespace c) \<or>
     getTranscription s = LISTENING \<Longrightarrow>
   getTranscription s = [] \<or> trim (getTranscription s) = LISTENING \<or> trim (getTranscription s) = []"
  using trim_blank [of "getTranscription s"] trim_LISTENING by auto

lemma sendAudio_resume_no_speech:
  "getTranscription s = [] \<or> trim (getTranscription s) = LISTENING \<or> trim (getTranscription s) = [] \<Longrightarrow>
   sendAudio_resume a s =
     s\<lparr>ui := (ui s)\<lparr>loadingMessage := False,
          errorAlert := errorAlert (ui s) @ [''No speech detected. Please try again.'']\<rparr>,
       interview := (interview s)\<lparr>isProcessingResponse := False\<rparr>\<rparr>"
  by (simp add: sendAudio_resume_def showError_def hideLoading_def Let_def)

lemma getTranscription_begin:
  "getTranscription (sendAudio_begin s) = getTranscription s"
  by (simp add: getTranscription_def sendAudio_begin_def showLoading_def)

text \<open>
  C5. When the transcript read by \<open>sendAudio\<close> is empty, consists of white space only, or
  is the placeholder, the function sends nothing, clears the guard, hides the loading
  indicator and shows the no-speech alert. This holds for the part after the await in
  any state (whatever happened while the function was suspended); and a call made with
  the guard free, run to its end, leaves the coordinator idle: not recording, not
  processing, nothing pending.
\<close>

theorem no_speech_submission_aborted:
  assumes "getTranscription s = [] \<or> (\<forall>c\<in>set (getTranscription s). js_whitespace c) \<or>
     getTranscription s = LISTENING"
  shows "sent (interview (sendAudio_resume a s)) = sent (interview s) \<and>
     \<not> isProcessingResponse (interview (sendAudio_resume a s)) \<and>
     \<not> loadingMessage (ui (sendAudio_resume a s)) \<and>
     errorAlert (ui (sendAudio_resume a s)) =
       errorAlert (ui s) @ [''No speech detected. Please try again.''] \<and>
     (\<not> isProcessingResponse (interview s) \<longrightarrow>
        sent (interview (sendAudio result s)) = sent (interview s) \<and>
        pendingAudio (interview (sendAudio result s)) = pendingAudio (interview s) \<and>
        \<not> isProcessingResponse (interview (sendAudio result s)) \<and>
        \<not> isRecording (interview (sendAudio result s)) \<and>
        \<not> loadingMessage (ui (sendAudio result s)) \<and>
        errorAlert (ui (sendAudio result s)) =
          errorAlert (ui s) @ [''No speech detected. Please try again.''])"
proof -
  have c: "getTranscription s = [] \<or> trim (getTranscription s) = LISTENING \<or> trim (getTranscription s) = []"
    using assms by (rule no_speech_cond)
  have r: "sendAudio_resume a s =
     s\<lparr>ui := (ui s)\<lparr>loadingMessage := False,
          errorAlert := errorAlert (ui s) @ [''No speech detected. Please try again.'']\<rparr>,
       interview := (interview s)\<lparr>isProcessingResponse := False\<rparr>\<rparr>"
    using c by (rule sendAudio_resume_no_speech)
  have whole: "\<not> isProcessingResponse (interview s) \<Longrightarrow>
        sent (interview (sendAudio result s)) = sent (interview s) \<and>
        pendingAudio (interview (sendAudio result s)) = pendingAudio (interview s) \<and>
        \<not> isProcessingResponse (interview (sendAudio result s)) \<and>
        \<not> isRecording (interview (sendAudio result s)) \<and>
        \<not> loadingMessage (ui (sendAudio result s)) \<and>
        errorAlert (ui (sendAudio result s)) =
          errorAlert (ui s) @ [''No speech detected. Please try again.'']"
  proof -
    assume g: "\<not> isProcessingResponse (interview s)"
    let ?s1 = "sendAudio_begin s"
    have t: "getTranscription ?s1 = getTranscription s" by (rule getTranscription_begin)
    have c2: "getTranscription ?s1 = [] \<or> trim (getTranscription ?s1) = LISTENING \<or> trim (getTranscription ?s1) = []"
      using c by (simp only: t)
    have w: "sendAudio result s = sendAudio_resume (audioBase64_of (getRecordedAudioBase64 ?s1) result) ?s1"
      using g by (simp add: sendAudio_def Let_def)
    show ?thesis
      unfolding w sendAudio_resume_no_speech [OF c2]
      by (simp add: sendAudio_begin_def showLoading_def)
  qed
  show ?thesis using whole by (simp add: r)
qed


theorem no_speech_submission_aborted_witness:
  "getTranscription (speech_run [SetupSpeechRecognition, RecognitionStarted,
       RecognitionResult 0 [(True, ''  '')]] (app_load True True)) = ''  '' \<and>
   sent (interview (sendAudio None (speech_run [SetupSpeechRecognition, RecognitionStarted,
       RecognitionResult 0 [(True, ''  '')]] (app_load True True)))) = [] \<and>
   errorAlert (ui (sendAudio None (speech_run [SetupSpeechRecognition, RecognitionStarted,
       RecognitionResult 0 [(True, ''  '')]] (app_load True True)))) =
     [''No speech detected. Please try again.'']"
proof -
  let ?s = "speech_run [SetupSpeechRecognition, RecognitionStarted,
       RecognitionResult 0 [(True, ''  '')]] (app_load True True)"
  have t: "getTranscription ?s = ''  ''"
    by (simp add: load_defs speech_defs Let_def)
  have w: "\<forall>c\<in>set (getTranscription ?s). js_whitespace c"
    by (simp only: t) (simp add: js_whitespace_def)
  have g: "\<not> isProcessingResponse (interview ?s)"
    by (simp add: load_defs speech_defs Let_def)
  have i: "sent (interview ?s) = [] \<and> errorAlert (ui ?s) = []"
    by (simp add: load_defs speech_defs Let_def)
  have h: "getTranscription ?s = [] \<or> (\<forall>c\<in>set (getTranscription ?s). js_whitespace c) \<or>
     getTranscription ?s = LISTENING"
    using w by blast
  note c = no_speech_submission_aborted [OF h, of None None, THEN conjunct2, THEN conjunct2,
      THEN conjunct2, THEN conjunct2, THEN mp, OF g]
  from c i t show ?thesis by (simp only: append_Nil simp_thms)
qed

text \<open>
  C10. A call of \<open>sendAudio\<close> made with the guard free and the socket open, when no chunk
  was recorded (so that \<open>getRecordedAudioBase64\<close> yields \<open>null\<close>) and the transcript passes
  the no-speech test, sends one frame of type \<open>audio\<close> whose content is the empty string
  and whose transcription is the transcript; the call runs to its end without suspending,
  the turn stays in flight and no alert is shown. (With the socket not open nothing is
  ever sent, whatever the audio.)
\<close>

theorem empty_audio_payload_still_sent:
  assumes "\<not> isProcessingResponse (interview s)"
    and "websocket (interview s) = Some OPEN"
    and "audioChunks (capture s) = []"
    and "trim (getTranscription s) \<noteq> []"
    and "trim (getTranscription s) \<noteq> LISTENING"
  shows "getRecordedAudioBase64 s = NoChunks \<and>
     sent (interview (sendAudio_call s)) = sent (interview s) @
       [\<lparr>mtype = ''audio'', mcontent = [], transcription = Some (getTranscription s),
         mvoiceStyle = voiceStyle (ui s)\<rparr>] \<and>
     isProcessingResponse (interview (sendAudio_call s)) \<and>
     pendingAudio (interview (sendAudio_call s)) = pendingAudio (interview s) \<and>
     errorAlert (ui (sendAudio_call s)) = errorAlert (ui s) \<and>
     sendAudio result s = sendAudio_call s"
proof -
  have ne: "getTranscription s \<noteq> []"
    using assms(4) by (auto simp: trim_def)
  then have ne': "finalTranscript (speech s) @ interimTranscript (speech s) \<noteq> []"
    by (simp add: getTranscription_def)
  have eq: "sendAudio result s = sendAudio_call s"
    using assms(1,3)
    by (simp add: sendAudio_def sendAudio_call_def sendAudio_begin_def showLoading_def
        getRecordedAudioBase64_def Let_def)
  have rest: "getRecordedAudioBase64 s = NoChunks \<and>
     sent (interview (sendAudio_call s)) = sent (interview s) @
       [\<lparr>mtype = ''audio'', mcontent = [], transcription = Some (getTranscription s),
         mvoiceStyle = voiceStyle (ui s)\<rparr>] \<and>
     isProcessingResponse (interview (sendAudio_call s)) \<and>
     pendingAudio (interview (sendAudio_call s)) = pendingAudio (interview s) \<and>
     errorAlert (ui (sendAudio_call s)) = errorAlert (ui s)"
    using assms ne ne'
    by (simp add: sendAudio_call_def sendAudio_begin_def sendAudio_resume_def
        getRecordedAudioBase64_def getTranscription_def displayMessage_def websocket_send_def
        resetTranscription_def ui_defs Let_def)
  show ?thesis using eq rest by blast
qed

theorem empty_audio_payload_still_sent_witness:
  "websocket (interview (run [UploadSucceeded ''abc'', SocketOpen, Recognizer RecognitionStarted,
       Recognizer (RecognitionResult 0 [(True, ''hello'')])] (app_load True True))) = Some OPEN \<and>
   audioChunks (capture (run [UploadSucceeded ''abc'', SocketOpen, Recognizer RecognitionStarted,
       Recognizer (RecognitionResult 0 [(True, ''hello'')])] (app_load True True))) = [] \<and>
   sent (interview (sendAudio_call (run [UploadSucceeded ''abc'', SocketOpen,
       Recognizer RecognitionStarted,
       Recognizer (RecognitionResult 0 [(True, ''hello'')])] (app_load True True)))) =
     [\<lparr>mtype = ''audio'', mcontent = [], transcription = Some ''hello'',
       mvoiceStyle = ''Nova''\<rparr>]"
proof -
  let ?s = "run [UploadSucceeded ''abc'', SocketOpen, Recognizer RecognitionStarted,
       Recognizer (RecognitionResult 0 [(True, ''hello'')])] (app_load True True)"
  have t: "getTranscription ?s = ''hello''"
    by (simp add: load_defs speech_defs interview_defs Let_def)
  have h1: "\<not> isProcessingResponse (interview ?s)"
    by (simp add: load_defs speech_defs interview_defs Let_def)
  have h2: "websocket (interview ?s) = Some OPEN"
    by (simp add: load_defs speech_defs interview_defs Let_def)
  have h3: "audioChunks (capture ?s) = []"
    by (simp add: load_defs speech_defs interview_defs Let_def)
  have h4: "trim (getTranscription ?s) \<noteq> []"
    by (simp only: t trim_hello) simp
  have h5: "trim (getTranscription ?s) \<noteq> LISTENING"
    by (simp only: t trim_hello) (simp add: LISTENING_def)
  have i: "sent (interview ?s) = [] \<and> voiceStyle (ui ?s) = ''Nova''"
    by (simp add: load_defs speech_defs interview_defs Let_def)
  note c = empty_audio_payload_still_sent [OF h1 h2 h3 h4 h5, of None, THEN conjunct2, THEN conjunct1]
  from c i t h2 h3 show ?thesis by (simp only: append_Nil simp_thms)
qed

text \<open>\<open>handleTextSubmission\<close> never constructs a socket, in any state.\<close>

lemma handleTextSubmission_no_socket:
  "sockets (interview (handleTextSubmission s)) = sockets (interview s) \<and>
   websocket (interview (handleTextSubmission s)) = websocket (interview s)"
  by (simp add: handleTextSubmission_def websocket_send_def ui_defs Let_def)

text \<open>
  The audio path: when the transcript passes the no-speech test and the socket is not
  open, \<open>sendAudio\<close> shows the connection-lost alert, clears the guard, sends nothing and
  calls \<open>connectWebSocket\<close> once, which constructs one socket when an interview id is set.
\<close>

lemma sendAudio_reconnects_once:
  assumes "trim (getTranscription s) \<noteq> []"
    and "trim (getTranscription s) \<noteq> LISTENING"
    and "websocket (interview s) \<noteq> Some OPEN"
    and "interviewId (interview s) = Some ident"
    and "ident \<noteq> []"
  shows "sockets (interview (sendAudio_resume a s)) = Suc (sockets (interview s)) \<and>
     websocket (interview (sendAudio_resume a s)) = Some CONNECTING \<and>
     sent (interview (sendAudio_resume a s)) = sent (interview s) \<and>
     \<not> isProcessingResponse (interview (sendAudio_resume a s)) \<and>
     errorAlert (ui (sendAudio_resume a s)) =
       errorAlert (ui s) @ [''Connection lost. Please reload the page to reconnect.'']"
proof -
  have ne: "getTranscription s \<noteq> []"
    using assms(1) by (auto simp: trim_def)
  then have ne': "finalTranscript (speech s) @ interimTranscript (speech s) \<noteq> []"
    by (simp add: getTranscription_def)
  show ?thesis
    using assms ne ne'
    by (simp add: sendAudio_resume_def getTranscription_def displayMessage_def
        connectWebSocket_def ui_defs Let_def)
qed

text \<open>
  C7. A text submission made while the socket is not open attempts no reconnect: after
  the connection has closed with code 1006, submitting the text "hello" shows the
  connection-lost alert and clears the guard, and the number of sockets constructed is
  still 1 (the initial connection), the socket still closed. The audio path in the same
  situation does call \<open>connectWebSocket\<close> once: a second socket is constructed.
\<close>

theorem text_submission_skips_reconnect:
  "websocket (interview (run [UploadSucceeded ''abc'', SocketOpen, SocketClose 1006 [],
       TypeText ''hello''] (app_load True True))) = Some CLOSED \<and>
   sockets (interview (run [UploadSucceeded ''abc'', SocketOpen, SocketClose 1006 [],
       TypeText ''hello''] (app_load True True))) = 1 \<and>
   sockets (interview (run [UploadSucceeded ''abc'', SocketOpen, SocketClose 1006 [],
       TypeText ''hello'', SubmitText] (app_load True True))) = 1 \<and>
   websocket (interview (run [UploadSucceeded ''abc'', SocketOpen, SocketClose 1006 [],
       TypeText ''hello'', SubmitText] (app_load True True))) = Some CLOSED \<and>
   sent (interview (run [UploadSucceeded ''abc'', SocketOpen, SocketClose 1006 [],
       TypeText ''hello'', SubmitText] (app_load True True))) = [] \<and>
   \<not> isProcessingResponse (interview (run [UploadSucceeded ''abc'', SocketOpen, SocketClose 1006 [],
       TypeText ''hello'', SubmitText] (app_load True True))) \<and>
   errorAlert (ui (run [UploadSucceeded ''abc'', SocketOpen, SocketClose 1006 [],
       TypeText ''hello'', SubmitText] (app_load True True))) =
     [''Connection closed: Unknown reason'',
      ''Connection lost. Please reload the page to reconnect.''] \<and>
   sockets (interview (run [UploadSucceeded ''abc'', SocketOpen, StartClick True [],
       Recognizer RecognitionStarted, Recognizer (RecognitionResult 0 [(True, ''hello'')]),
       SocketClose 1006 [], StopClick, SendAudioTimer, AudioEncoded None]
       (app_load True True))) = 2"
  by (simp add: load_defs ui_defs speech_defs capture_defs interview_defs Let_def trim_hello
      LISTENING_def)

section \<open>What the events leave alone\<close>

text \<open>
  Recognizer, recorder and player events, and the functions of speech.js and audio.js,
  do not touch the variables of interview.js.
\<close>

lemma speech_step_interview [simp]: "interview (speech_step e s) = interview s"
  by (cases e) (simp_all add: speech_defs ui_defs Let_def split: prod.splits option.splits)

lemma stopRecording_interview [simp]: "interview (stopRecording blob s) = interview s"
  by (simp add: capture_defs Let_def split: option.splits)

lemma stopRecording_sync_interview [simp]: "interview (snd (stopRecording_sync s)) = interview s"
  by (simp add: capture_defs Let_def split: option.splits)

lemma startRecording_interview [simp]: "interview (snd (startRecording mic blob s)) = interview s"
  by (simp add: startRecording_def startRecording_afterStop_def startRecording_afterMic_def
      showError_def Let_def)

lemma startRecognition_interview [simp]: "interview (snd (startRecognition s)) = interview s"
  by (simp add: startRecognition_def showError_def)

lemma stopRecognition_interview [simp]: "interview (stopRecognition s) = interview s"
  by (simp add: stopRecognition_def)

lemma startRecording_interview':
  "startRecording mic blob s = (a, s') \<Longrightarrow> interview s' = interview s"
  using startRecording_interview [of mic blob s] by simp

lemma startRecognition_interview':
  "startRecognition s = (a, s') \<Longrightarrow> interview s' = interview s"
  using startRecognition_interview [of s] by simp

lemma playback_interview [simp]:
  "interview (audioPlayer_onended s) = interview s"
  "interview (audioPlayer_onerror s) = interview s"
  by (simp_all add: player_defs ui_defs split: option.splits)

lemma recorderStopped_interview [simp]: "interview (recorderStopped r blob s) = interview s"
  by (simp add: recorderStopped_def)

lemma displayMessage_interview [simp]: "interview (state_of (displayMessage r c s)) = interview s"
  by (simp add: displayMessage_def displayAssistantMessage_def ui_defs Let_def split: jsval.splits option.splits)

lemma tryFormats_interview [simp]: "interview (state_of (tryFormats fs s)) = interview s"
  by (cases fs) (simp_all add: player_defs ui_defs Let_def split: option.splits)

lemma audio_stopSpeakingAnimation_interview [simp]:
  "interview (state_of (audio_stopSpeakingAnimation s)) = interview s"
  by (simp add: audio_stopSpeakingAnimation_def stopSpeakingAnimation_def split: option.splits)

lemma playAudio_try_interview [simp]: "interview (state_of (playAudio_try a s)) = interview s"
  by (cases a) (simp_all add: playAudio_try_def Let_def)

lemma playAudio_interview [simp]: "interview (state_of (playAudio a s)) = interview s"
proof (cases "playAudio_try a s")
  case (Returned s1)
  then show ?thesis using playAudio_try_interview [of a s] by (simp add: playAudio_def)
next
  case (Thrown s1)
  then show ?thesis using playAudio_try_interview [of a s] by (simp add: playAudio_def)
qed

lemma playAudio_if_interview:
  "interview (state_of (if c then playAudio a s else Returned s)) = interview s"
  by simp

lemma andThen_Returned:
  assumes "andThen x f = Returned s'"
  obtains s1 where "x = Returned s1" and "f s1 = Returned s'"
  using assms by (cases x) auto

lemma andThen_pres:
  "Q (state_of x) \<Longrightarrow> (\<And>s. Q s \<Longrightarrow> Q (state_of (f s))) \<Longrightarrow> Q (state_of (andThen x f))"
  by (cases x) auto

lemma handleWebSocketMessage_latch:
  "(viewInsightsBtn (interview s) \<longrightarrow> viewInsightsBtn (interview (handleWebSocketMessage p s))) \<and>
   awaitingOpen (interview (handleWebSocketMessage p s)) = awaitingOpen (interview s)"
proof -
  let ?Q = "\<lambda>t. (viewInsightsBtn (interview s) \<longrightarrow> viewInsightsBtn (interview t)) \<and>
     awaitingOpen (interview t) = awaitingOpen (interview s)"
  have "?Q (state_of (handleWebSocketMessage_try p s))"
    unfolding handleWebSocketMessage_try_def Let_def
    by (cases p)
       (auto intro!: andThen_pres [where Q = ?Q]
          simp: clearProcessing_def hideLoading_def playAudio_if_interview)
  then show ?thesis
    by (cases "handleWebSocketMessage_try p s") (simp_all add: handleWebSocketMessage_def hideLoading_def Let_def)
qed


section \<open>One turn in flight\<close>

lemma startRecording_click_sub:
  "isProcessingResponse (interview (startRecording_click mic blob s)) = isProcessingResponse (interview s) \<and>
   pendingAudio (interview (startRecording_click mic blob s)) = pendingAudio (interview s) \<and>
   sent (interview (startRecording_click mic blob s)) = sent (interview s)"
  by (auto simp: startRecording_click_def Let_def ui_defs split: prod.splits
      dest!: startRecording_interview' startRecognition_interview')

lemma stopRecording_click_sub:
  "isProcessingResponse (interview (stopRecording_click s)) = isProcessingResponse (interview s) \<and>
   pendingAudio (interview (stopRecording_click s)) = pendingAudio (interview s) \<and>
   sent (interview (stopRecording_click s)) = sent (interview s)"
  by (simp add: stopRecording_click_def Let_def)

lemma autoStopFired_sub:
  "isProcessingResponse (interview (autoStopFired s)) = isProcessingResponse (interview s) \<and>
   pendingAudio (interview (autoStopFired s)) = pendingAudio (interview s) \<and>
   sent (interview (autoStopFired s)) = sent (interview s)"
  by (simp add: autoStopFired_def Let_def stopRecording_click_sub)

lemma connection_sub:
  "isProcessingResponse (interview (startNewInterview ident s)) = isProcessingResponse (interview s) \<and>
   pendingAudio (interview (startNewInterview ident s)) = pendingAudio (interview s) \<and>
   sent (interview (startNewInterview ident s)) = sent (interview s) \<and>
   isProcessingResponse (interview (websocket_onopen s)) = isProcessingResponse (interview s) \<and>
   pendingAudio (interview (websocket_onopen s)) = pendingAudio (interview s) \<and>
   sent (interview (websocket_onopen s)) = sent (interview s) \<and>
   isProcessingResponse (interview (websocket_onerror s)) = isProcessingResponse (interview s) \<and>
   pendingAudio (interview (websocket_onerror s)) = pendingAudio (interview s) \<and>
   sent (interview (websocket_onerror s)) = sent (interview s) \<and>
   isProcessingResponse (interview (websocket_onclose code reason s)) = isProcessingResponse (interview s) \<and>
   pendingAudio (interview (websocket_onclose code reason s)) = pendingAudio (interview s) \<and>
   sent (interview (websocket_onclose code reason s)) = sent (interview s)"
  by (simp add: startNewInterview_def connectWebSocket_def websocket_onopen_def
      websocket_onerror_def websocket_onclose_def startNewInterview_resume_def
      initSpeechRecognition_def showError_def Let_def)

lemma sendAudio_resume_sub:
  "pendingAudio (interview (sendAudio_resume a s)) = pendingAudio (interview s) \<and>
   ((sent (interview (sendAudio_resume a s)) = sent (interview s) \<and>
     \<not> isProcessingResponse (interview (sendAudio_resume a s))) \<or>
    (\<exists>m. sent (interview (sendAudio_resume a s)) = sent (interview s) @ [m] \<and>
     isProcessingResponse (interview (sendAudio_resume a s)) = isProcessingResponse (interview s)))"
  by (simp add: sendAudio_resume_def displayMessage_def connectWebSocket_def websocket_send_def
      resetTranscription_def ui_defs Let_def)

lemma sendAudio_call_sub:
  "if isProcessingResponse (interview s) then sendAudio_call s = s
   else (\<exists>c. pendingAudio (interview (sendAudio_call s)) = pendingAudio (interview s) @ [c] \<and>
           sent (interview (sendAudio_call s)) = sent (interview s) \<and>
           isProcessingResponse (interview (sendAudio_call s))) \<or>
        (pendingAudio (interview (sendAudio_call s)) = pendingAudio (interview s) \<and>
         ((sent (interview (sendAudio_call s)) = sent (interview s) \<and>
           \<not> isProcessingResponse (interview (sendAudio_call s))) \<or>
          (\<exists>m. sent (interview (sendAudio_call s)) = sent (interview s) @ [m] \<and>
           isProcessingResponse (interview (sendAudio_call s)))))"
proof (cases "isProcessingResponse (interview s)")
  case True
  then show ?thesis by (simp add: sendAudio_call_def)
next
  case False
  have b: "pendingAudio (interview (sendAudio_begin s)) = pendingAudio (interview s)"
    "sent (interview (sendAudio_begin s)) = sent (interview s)"
    "isProcessingResponse (interview (sendAudio_begin s))"
    by (simp_all add: sendAudio_begin_def showLoading_def)
  show ?thesis
  proof (cases "getRecordedAudioBase64 (sendAudio_begin s)")
    case NoChunks
    then have c: "sendAudio_call s = sendAudio_resume None (sendAudio_begin s)"
      using False by (simp add: sendAudio_call_def Let_def)
    show ?thesis
      using False sendAudio_resume_sub [of None "sendAudio_begin s"] b
      unfolding c by auto
  next
    case (Reading chunks)
    then show ?thesis using False b by (simp add: sendAudio_call_def Let_def)
  qed
qed

lemma handleTextSubmission_sub:
  "pendingAudio (interview (handleTextSubmission s)) = pendingAudio (interview s) \<and>
   (handleTextSubmission s = s \<or>
    (\<not> isProcessingResponse (interview s) \<and>
     ((sent (interview (handleTextSubmission s)) = sent (interview s) \<and>
       \<not> isProcessingResponse (interview (handleTextSubmission s))) \<or>
      (\<exists>m. sent (interview (handleTextSubmission s)) = sent (interview s) @ [m] \<and>
       isProcessingResponse (interview (handleTextSubmission s))))))"
  by (simp add: handleTextSubmission_def websocket_send_def ui_defs Let_def)


lemma step_in_flight:
  assumes ni: "\<not> is_inbound e"
    and s: "sent (interview s) = base @ new"
    and l: "length (pendingAudio (interview s)) + length new \<le> 1"
    and g: "pendingAudio (interview s) \<noteq> [] \<or> new \<noteq> [] \<Longrightarrow> isProcessingResponse (interview s)"
  shows "\<exists>new'. sent (interview (step e s)) = base @ new' \<and>
     length (pendingAudio (interview (step e s))) + length new' \<le> 1 \<and>
     (pendingAudio (interview (step e s)) \<noteq> [] \<or> new' \<noteq> [] \<longrightarrow>
        isProcessingResponse (interview (step e s)))"
proof -
  have keep: "isProcessingResponse (interview (step e s)) = isProcessingResponse (interview s) \<Longrightarrow>
      pendingAudio (interview (step e s)) = pendingAudio (interview s) \<Longrightarrow>
      sent (interview (step e s)) = sent (interview s) \<Longrightarrow> ?thesis"
    using s l g by auto
  show ?thesis
  proof (cases e)
    case (UploadSucceeded ident)
    then show ?thesis using connection_sub [of ident s] by (intro keep) simp_all
  next
    case SocketOpen
    then show ?thesis using connection_sub [of "[]" s] by (intro keep) simp_all
  next
    case SocketError
    then show ?thesis using connection_sub [of "[]" s] by (intro keep) simp_all
  next
    case (SocketClose code reason)
    then show ?thesis using connection_sub [of "[]" s code reason] by (intro keep) simp_all
  next
    case (SocketMessage p)
    then show ?thesis using ni by simp
  next
    case (Recognizer ev)
    then show ?thesis by (intro keep) simp_all
  next
    case (StartClick mic blob)
    then show ?thesis using startRecording_click_sub [of mic blob s] by (intro keep) simp_all
  next
    case StopClick
    then show ?thesis using stopRecording_click_sub [of s] by (intro keep) simp_all
  next
    case AutoStopTimer
    then show ?thesis using autoStopFired_sub [of s] by (intro keep) simp_all
  next
    case SendAudioTimer
    let ?t = "s\<lparr>interview := (interview s)\<lparr>sendTimers := sendTimers (interview s) - 1\<rparr>\<rparr>"
    show ?thesis
    proof (cases "0 < sendTimers (interview s) \<and> \<not> isProcessingResponse (interview s)")
      case False
      then have "isProcessingResponse (interview (step e s)) = isProcessingResponse (interview s)"
        "pendingAudio (interview (step e s)) = pendingAudio (interview s)"
        "sent (interview (step e s)) = sent (interview s)"
        using SendAudioTimer sendAudio_call_sub [of ?t] by (auto split: if_splits)
      then show ?thesis by (rule keep)
    next
      case True
      then have idle: "pendingAudio (interview s) = []" "new = []" using g by auto
      have st: "step e s = sendAudio_call ?t" using True SendAudioTimer by simp
      show ?thesis
        using True sendAudio_call_sub [of ?t] s idle
        unfolding st by auto
    qed
  next
    case (AudioEncoded result)
    show ?thesis
    proof (cases "pendingAudio (interview s)")
      case Nil
      then show ?thesis using AudioEncoded by (intro keep) simp_all
    next
      case (Cons rd rest)
      then have r: "rest = []" "new = []" and gd: "isProcessingResponse (interview s)" using l g by auto
      let ?t = "s\<lparr>interview := (interview s)\<lparr>pendingAudio := rest\<rparr>\<rparr>"
      have st: "step e s = sendAudio_resume result ?t"
        using AudioEncoded Cons by simp
      show ?thesis
        using sendAudio_resume_sub [of result ?t] r s gd
        unfolding st by auto
    qed
  next
    case (TypeText tx)
    then show ?thesis by (intro keep) simp_all
  next
    case SubmitText
    show ?thesis
    proof (cases "handleTextSubmission s = s")
      case True
      then show ?thesis using SubmitText by (intro keep) simp_all
    next
      case False
      then have ng: "\<not> isProcessingResponse (interview s)"
        using handleTextSubmission_sub [of s] by auto
      then have idle: "pendingAudio (interview s) = []" "new = []" using g by auto
      show ?thesis
        using handleTextSubmission_sub [of s] False idle s SubmitText by auto
    qed
  next
    case (RecorderStopEvent r blob)
    then show ?thesis by (intro keep) simp_all
  next
    case PlaybackEnded
    then show ?thesis by (intro keep) simp_all
  next
    case PlaybackError
    then show ?thesis by (intro keep) simp_all
  qed
qed

lemma run_in_flight:
  assumes "\<forall>e\<in>set es. \<not> is_inbound e"
    and "sent (interview s) = base @ new"
    and "length (pendingAudio (interview s)) + length new \<le> 1"
    and "pendingAudio (interview s) \<noteq> [] \<or> new \<noteq> [] \<longrightarrow> isProcessingResponse (interview s)"
  shows "\<exists>new'. sent (interview (run es s)) = base @ new' \<and>
     length (pendingAudio (interview (run es s))) + length new' \<le> 1"
  using assms
proof (induction es arbitrary: s new)
  case Nil
  then show ?case by auto
next
  case (Cons e es)
  from Cons.prems have ni: "\<not> is_inbound e" by simp
  from step_in_flight [OF ni Cons.prems(2) Cons.prems(3)] Cons.prems(4)
  obtain new' where n: "sent (interview (step e s)) = base @ new'"
    "length (pendingAudio (interview (step e s))) + length new' \<le> 1"
    "pendingAudio (interview (step e s)) \<noteq> [] \<or> new' \<noteq> [] \<longrightarrow>
        isProcessingResponse (interview (step e s))" by blast
  from Cons.prems(1) have rest: "\<forall>e\<in>set es. \<not> is_inbound e" by simp
  show ?case
    unfolding run.simps
    by (rule Cons.IH [OF rest n])
qed

text \<open>
  Between two inbound frames the guard does its work. Start in any state with at most one
  \<open>sendAudio\<close> call suspended, the guard set if there is one, and let any events happen
  except the arrival of an inbound frame: audio and text submission attempts in any
  interleaving, the resumption of a suspended \<open>sendAudio\<close>, clicks, timers, recognizer and
  socket events. Then the frames sent so far are still there, and the suspended
  \<open>sendAudio\<close> calls plus the frames sent since number at most one. A submission
  attempted while the guard is set changes nothing at all. (The click handler of the start
  button is taken as one event; it touches none of the variables involved.)
\<close>

lemma one_turn_between_inbound_frames:
  assumes "length (pendingAudio (interview s0)) \<le> 1"
    and "pendingAudio (interview s0) \<noteq> [] \<longrightarrow> isProcessingResponse (interview s0)"
    and "\<forall>e\<in>set es. \<not> is_inbound e"
  shows "take (length (sent (interview s0))) (sent (interview (run es s0))) = sent (interview s0) \<and>
     length (pendingAudio (interview (run es s0))) +
       length (drop (length (sent (interview s0))) (sent (interview (run es s0)))) \<le> 1 \<and>
     (isProcessingResponse (interview s) \<longrightarrow>
        sendAudio_call s = s \<and> handleTextSubmission s = s)"
proof -
  have "\<exists>new'. sent (interview (run es s0)) = sent (interview s0) @ new' \<and>
     length (pendingAudio (interview (run es s0))) + length new' \<le> 1"
    using assms by (intro run_in_flight [where new = "[]"]) simp_all
  then obtain new' where n: "sent (interview (run es s0)) = sent (interview s0) @ new'"
     "length (pendingAudio (interview (run es s0))) + length new' \<le> 1" by blast
  have rej: "isProcessingResponse (interview s) \<longrightarrow>
        sendAudio_call s = s \<and> handleTextSubmission s = s"
    by (simp add: sendAudio_call_def handleTextSubmission_def Let_def)
  show ?thesis using n rej by simp
qed

text \<open>
  C3. Two turns are in flight at once when an inbound frame is handled while \<open>sendAudio\<close>
  is suspended at its await. The interview is connected; a turn is recorded with the
  transcript "hello" and \<open>sendAudio\<close> is called: it sets the guard and waits for the
  recording to be read. A system frame arrives and its handler clears the guard. The text
  "hi" is then submitted and is accepted, not rejected: its frame is sent while the read of
  the audio turn is still pending. When the read finishes the audio frame is sent too, no
  reply having arrived in between.
\<close>

theorem second_turn_accepted_during_suspension:
  "isProcessingResponse (interview (run [StartClick True [], Recognizer RecognitionStarted,
       Recognizer (RecognitionResult 0 [(True, ''hello'')]), StopClick,
       RecorderStopEvent 0 ''abc'', SendAudioTimer]
     (run [UploadSucceeded ''abc'', SocketOpen] (app_load True True)))) \<and>
   pendingAudio (interview (run [StartClick True [], Recognizer RecognitionStarted,
       Recognizer (RecognitionResult 0 [(True, ''hello'')]), StopClick,
       RecorderStopEvent 0 ''abc'', SendAudioTimer]
     (run [UploadSucceeded ''abc'', SocketOpen] (app_load True True)))) = [[''abc'']] \<and>
   \<not> isProcessingResponse (interview (run [StartClick True [], Recognizer RecognitionStarted,
       Recognizer (RecognitionResult 0 [(True, ''hello'')]), StopClick,
       RecorderStopEvent 0 ''abc'', SendAudioTimer,
       SocketMessage (Object \<lparr>role = JStr ''system'', content = JStr ''Please wait'',
         audio = JUndefined, interviewComplete = JUndefined\<rparr>)]
     (run [UploadSucceeded ''abc'', SocketOpen] (app_load True True)))) \<and>
   map mtype (sent (interview (run [StartClick True [], Recognizer RecognitionStarted,
       Recognizer (RecognitionResult 0 [(True, ''hello'')]), StopClick,
       RecorderStopEvent 0 ''abc'', SendAudioTimer,
       SocketMessage (Object \<lparr>role = JStr ''system'', content = JStr ''Please wait'',
         audio = JUndefined, interviewComplete = JUndefined\<rparr>),
       TypeText ''hi'', SubmitText, AudioEncoded (Some ''YWJj'')]
     (run [UploadSucceeded ''abc'', SocketOpen] (app_load True True))))) = [''text'', ''audio''] \<and>
   pendingAudio (interview (run [StartClick True [], Recognizer RecognitionStarted,
       Recognizer (RecognitionResult 0 [(True, ''hello'')]), StopClick,
       RecorderStopEvent 0 ''abc'', SendAudioTimer,
       SocketMessage (Object \<lparr>role = JStr ''system'', content = JStr ''Please wait'',
         audio = JUndefined, interviewComplete = JUndefined\<rparr>),
       TypeText ''hi'', SubmitText]
     (run [UploadSucceeded ''abc'', SocketOpen] (app_load True True)))) = [[''abc'']] \<and>
   map mtype (sent (interview (run [StartClick True [], Recognizer RecognitionStarted,
       Recognizer (RecognitionResult 0 [(True, ''hello'')]), StopClick,
       RecorderStopEvent 0 ''abc'', SendAudioTimer,
       SocketMessage (Object \<lparr>role = JStr ''system'', content = JStr ''Please wait'',
         audio = JUndefined, interviewComplete = JUndefined\<rparr>),
       TypeText ''hi'', SubmitText]
     (run [UploadSucceeded ''abc'', SocketOpen] (app_load True True))))) = [''text'']"
  by (simp add: load_defs ui_defs speech_defs capture_defs interview_defs Let_def trim_hello
      trim_def js_whitespace_def LISTENING_def)

section \<open>Session completion\<close>

lemma connection_latch:
  "\<not> awaitingOpen (interview s) \<Longrightarrow>
   viewInsightsBtn (interview (websocket_onopen s)) = viewInsightsBtn (interview s) \<and>
   \<not> awaitingOpen (interview (websocket_onopen s)) \<and>
   viewInsightsBtn (interview (websocket_onerror s)) = viewInsightsBtn (interview s) \<and>
   \<not> awaitingOpen (interview (websocket_onerror s)) \<and>
   viewInsightsBtn (interview (websocket_onclose code reason s)) = viewInsightsBtn (interview s) \<and>
   \<not> awaitingOpen (interview (websocket_onclose code reason s))"
  by (simp add: websocket_onopen_def websocket_onerror_def websocket_onclose_def showError_def Let_def)

lemma sendAudio_resume_latch:
  "viewInsightsBtn (interview (sendAudio_resume a s)) = viewInsightsBtn (interview s) \<and>
   (\<not> awaitingOpen (interview s) \<longrightarrow> \<not> awaitingOpen (interview (sendAudio_resume a s)))"
  by (simp add: sendAudio_resume_def displayMessage_def connectWebSocket_def websocket_send_def
      resetTranscription_def ui_defs Let_def)

lemma sendAudio_call_latch:
  "viewInsightsBtn (interview (sendAudio_call s)) = viewInsightsBtn (interview s) \<and>
   (\<not> awaitingOpen (interview s) \<longrightarrow> \<not> awaitingOpen (interview (sendAudio_call s)))"
proof -
  have b: "viewInsightsBtn (interview (sendAudio_begin s)) = viewInsightsBtn (interview s)"
    "awaitingOpen (interview (sendAudio_begin s)) = awaitingOpen (interview s)"
    by (simp_all add: sendAudio_begin_def showLoading_def)
  show ?thesis
    using sendAudio_resume_latch [of None "sendAudio_begin s"] b
    by (simp add: sendAudio_call_def Let_def split: reading.splits)
qed

lemma handleTextSubmission_latch:
  "viewInsightsBtn (interview (handleTextSubmission s)) = viewInsightsBtn (interview s) \<and>
   awaitingOpen (interview (handleTextSubmission s)) = awaitingOpen (interview s)"
  by (simp add: handleTextSubmission_def websocket_send_def ui_defs Let_def)

lemma startRecording_click_latch:
  "viewInsightsBtn (interview (startRecording_click mic blob s)) = viewInsightsBtn (interview s) \<and>
   awaitingOpen (interview (startRecording_click mic blob s)) = awaitingOpen (interview s)"
  by (auto simp: startRecording_click_def Let_def ui_defs split: prod.splits
      dest!: startRecording_interview' startRecognition_interview')

lemma stopRecording_click_latch:
  "viewInsightsBtn (interview (stopRecording_click s)) = viewInsightsBtn (interview s) \<and>
   awaitingOpen (interview (stopRecording_click s)) = awaitingOpen (interview s)"
  by (simp add: stopRecording_click_def Let_def)

lemma autoStopFired_latch:
  "viewInsightsBtn (interview (autoStopFired s)) = viewInsightsBtn (interview s) \<and>
   awaitingOpen (interview (autoStopFired s)) = awaitingOpen (interview s)"
  by (simp add: autoStopFired_def Let_def stopRecording_click_latch)

lemma step_latch:
  assumes "\<not> is_upload e" and "viewInsightsBtn (interview s)" and "\<not> awaitingOpen (interview s)"
  shows "viewInsightsBtn (interview (step e s)) \<and> \<not> awaitingOpen (interview (step e s))"
proof (cases e)
  case (UploadSucceeded ident)
  then show ?thesis using assms by simp
next
  case SocketOpen
  then show ?thesis using assms connection_latch [of s] by simp
next
  case SocketError
  then show ?thesis using assms connection_latch [of s] by simp
next
  case (SocketClose code reason)
  then show ?thesis using assms connection_latch [of s code reason] by simp
next
  case (SocketMessage p)
  then show ?thesis using assms handleWebSocketMessage_latch [of s p] by simp
next
  case (Recognizer ev)
  then show ?thesis using assms by simp
next
  case (StartClick mic blob)
  then show ?thesis using assms startRecording_click_latch [of mic blob s] by simp
next
  case StopClick
  then show ?thesis using assms stopRecording_click_latch [of s] by simp
next
  case AutoStopTimer
  then show ?thesis using assms autoStopFired_latch [of s] by simp
next
  case SendAudioTimer
  then show ?thesis
    using assms
      sendAudio_call_latch [of "s\<lparr>interview := (interview s)\<lparr>sendTimers := sendTimers (interview s) - 1\<rparr>\<rparr>"]
    by simp
next
  case (AudioEncoded result)
  show ?thesis
  proof (cases "pendingAudio (interview s)")
    case Nil
    then show ?thesis using assms AudioEncoded by simp
  next
    case (Cons chunks rest)
    then show ?thesis
      using assms AudioEncoded
        sendAudio_resume_latch [of result "s\<lparr>interview := (interview s)\<lparr>pendingAudio := rest\<rparr>\<rparr>"]
      by simp
  qed
next
  case (TypeText tx)
  then show ?thesis using assms by simp
next
  case SubmitText
  then show ?thesis using assms handleTextSubmission_latch [of s] by simp
next
  case (RecorderStopEvent r blob)
  then show ?thesis using assms by simp
next
  case PlaybackEnded
  then show ?thesis using assms by simp
next
  case PlaybackError
  then show ?thesis using assms by simp
qed

lemma run_latch:
  "\<forall>e\<in>set es. \<not> is_upload e \<Longrightarrow> viewInsightsBtn (interview s) \<Longrightarrow>
   \<not> awaitingOpen (interview s) \<Longrightarrow>
   viewInsightsBtn (interview (run es s)) \<and> \<not> awaitingOpen (interview (run es s))"
proof (induction es arbitrary: s)
  case Nil
  then show ?case by simp
next
  case (Cons e es)
  from Cons.prems have ne: "\<not> is_upload e" and rest: "\<forall>e\<in>set es. \<not> is_upload e" by simp_all
  from step_latch [OF ne Cons.prems(2) Cons.prems(3)]
  have a: "viewInsightsBtn (interview (step e s))" and b: "\<not> awaitingOpen (interview (step e s))"
    by simp_all
  show ?case unfolding run.simps by (rule Cons.IH [OF rest a b])
qed

lemma completion_sets_latch:
  "handleWebSocketMessage_try (Object m) s = Returned s' \<Longrightarrow> truthy (interviewComplete m) \<Longrightarrow>
   viewInsightsBtn (interview s')"
  unfolding handleWebSocketMessage_try_def Let_def
  by (auto split: if_splits elim!: andThen_Returned)

lemma startRecording_click_accepts:
  "\<not> isRecording (interview s) \<Longrightarrow> \<not> isProcessingResponse (interview s) \<Longrightarrow>
   speechSupported (speech s) \<Longrightarrow> isRecording (interview (startRecording_click True blob s))"
  by (auto simp: startRecording_click_def Let_def ui_defs startRecognition_def
      stopRecognition_def capture_defs split: prod.splits option.splits)

text \<open>
  C2, as the code has it. A completion-flagged message that is handled without an
  exception shows the insights button. Once the button is shown (and no
  \<open>startNewInterview\<close> is waiting for its socket), it stays shown under every sequence of
  events other than the start of a new interview. The recording controls do not consult
  it: in such a state the click handler of the start button refuses exactly when
  \<open>isRecording\<close> or \<open>isProcessingResponse\<close> is set, and otherwise starts recording (given
  a microphone and speech recognition).
\<close>

theorem completion_latch_does_not_gate_recording:
  assumes "viewInsightsBtn (interview s)"
    and "\<not> awaitingOpen (interview s)"
    and "\<forall>e\<in>set es. \<not> is_upload e"
  shows "viewInsightsBtn (interview (run es s)) \<and>
     (\<not> isRecording (interview s) \<and> \<not> isProcessingResponse (interview s) \<and>
      speechSupported (speech s) \<longrightarrow>
        isRecording (interview (startRecording_click True blob s))) \<and>
     (isRecording (interview s) \<or> isProcessingResponse (interview s) \<longrightarrow>
        startRecording_click mic blob s = s) \<and>
     (handleWebSocketMessage_try (Object m) t = Returned t' \<and> truthy (interviewComplete m) \<longrightarrow>
        viewInsightsBtn (interview t'))"
proof -
  have a: "viewInsightsBtn (interview (run es s))"
    using run_latch [OF assms(3) assms(1) assms(2)] by simp
  have b: "\<not> isRecording (interview s) \<and> \<not> isProcessingResponse (interview s) \<and>
      speechSupported (speech s) \<longrightarrow>
        isRecording (interview (startRecording_click True blob s))"
    using startRecording_click_accepts [of s blob] by blast
  have c: "isRecording (interview s) \<or> isProcessingResponse (interview s) \<longrightarrow>
        startRecording_click mic blob s = s"
    by (simp add: startRecording_click_def)
  have d: "handleWebSocketMessage_try (Object m) t = Returned t' \<and> truthy (interviewComplete m) \<longrightarrow>
        viewInsightsBtn (interview t')"
    using completion_sets_latch [of m t t'] by blast
  show ?thesis using a b c d by blast
qed

theorem completion_latch_does_not_gate_recording_witness:
  "viewInsightsBtn (interview (run [UploadSucceeded ''abc'', SocketOpen,
      SocketMessage (Object \<lparr>role = JStr ''assistant'', content = JStr ''Thank you'',
        audio = JUndefined, interviewComplete = JBool True\<rparr>)] (app_load True True))) \<and>
   \<not> awaitingOpen (interview (run [UploadSucceeded ''abc'', SocketOpen,
      SocketMessage (Object \<lparr>role = JStr ''assistant'', content = JStr ''Thank you'',
        audio = JUndefined, interviewComplete = JBool True\<rparr>)] (app_load True True))) \<and>
   viewInsightsBtn (interview (run [StartClick True [], StopClick, SendAudioTimer, TypeText ''bye'',
      SubmitText, SocketMessage Unparseable]
     (run [UploadSucceeded ''abc'', SocketOpen,
      SocketMessage (Object \<lparr>role = JStr ''assistant'', content = JStr ''Thank you'',
        audio = JUndefined, interviewComplete = JBool True\<rparr>)] (app_load True True))))"
proof -
  let ?s = "run [UploadSucceeded ''abc'', SocketOpen,
      SocketMessage (Object \<lparr>role = JStr ''assistant'', content = JStr ''Thank you'',
        audio = JUndefined, interviewComplete = JBool True\<rparr>)] (app_load True True)"
  let ?es = "[StartClick True [], StopClick, SendAudioTimer, TypeText ''bye'',
      SubmitText, SocketMessage Unparseable]"
  have h1: "viewInsightsBtn (interview ?s)"
    by (simp add: load_defs ui_defs speech_defs interview_defs Let_def trim_def js_whitespace_def)
  have h2: "\<not> awaitingOpen (interview ?s)"
    by (simp add: load_defs ui_defs speech_defs interview_defs Let_def trim_def js_whitespace_def)
  have h3: "\<forall>e\<in>set ?es. \<not> is_upload e" by simp
  note c = completion_latch_does_not_gate_recording [OF h1 h2 h3, THEN conjunct1]
  from h1 h2 c show ?thesis by (simp only: simp_thms)
qed

text \<open>
  C2 as claimed fails: after a completion-flagged assistant message the insights button is
  shown, a click on the start button is accepted, and the recorded turn is sent when the
  stop button is clicked.
\<close>

theorem recording_accepted_after_completion:
  "viewInsightsBtn (interview (run [UploadSucceeded ''abc'', SocketOpen,
      SocketMessage (Object \<lparr>role = JStr ''assistant'', content = JStr ''Thank you'',
        audio = JUndefined, interviewComplete = JBool True\<rparr>)] (app_load True True))) \<and>
   isRecording (interview (run [UploadSucceeded ''abc'', SocketOpen,
      SocketMessage (Object \<lparr>role = JStr ''assistant'', content = JStr ''Thank you'',
        audio = JUndefined, interviewComplete = JBool True\<rparr>),
      StartClick True []] (app_load True True))) \<and>
   sent (interview (run [UploadSucceeded ''abc'', SocketOpen,
      SocketMessage (Object \<lparr>role = JStr ''assistant'', content = JStr ''Thank you'',
        audio = JUndefined, interviewComplete = JBool True\<rparr>),
      StartClick True [], Recognizer RecognitionStarted,
      Recognizer (RecognitionResult 0 [(True, ''hello'')]), StopClick, SendAudioTimer]
     (app_load True True))) =
     [\<lparr>mtype = ''audio'', mcontent = [], transcription = Some ''hello'',
       mvoiceStyle = ''Nova''\<rparr>] \<and>
   viewInsightsBtn (interview (run [UploadSucceeded ''abc'', SocketOpen,
      SocketMessage (Object \<lparr>role = JStr ''assistant'', content = JStr ''Thank you'',
        audio = JUndefined, interviewComplete = JBool True\<rparr>),
      StartClick True [], Recognizer RecognitionStarted,
      Recognizer (RecognitionResult 0 [(True, ''hello'')]), StopClick, SendAudioTimer]
     (app_load True True)))"
  by (simp add: load_defs ui_defs speech_defs capture_defs interview_defs Let_def trim_hello
      trim_def js_whitespace_def LISTENING_def)


section \<open>Capture buffer\<close>

lemma stopRecording_clean:
  assumes "filter active (recorders (capture s)) = [] \<or>
     (\<exists>pre. recorders (capture s) = pre @ [\<lparr>rstate = Recording, stopQueued = False, tracksLive = True\<rparr>] \<and>
        filter active pre = [] \<and> mediaRecorder (capture s) = Some (length pre))"
  shows "filter active (recorders (capture (stopRecording blob s))) = []"
  using assms
proof
  assume a: "filter active (recorders (capture s)) = []"
  have "\<And>r. \<not> is_recording s r"
  proof
    fix r assume "is_recording s r"
    then have "r < length (recorders (capture s))" "active (recorders (capture s) ! r)"
      by (simp_all add: is_recording_def active_def)
    then have "recorders (capture s) ! r \<in> set (filter active (recorders (capture s)))"
      by simp
    with a show False by simp
  qed
  then show ?thesis using a
    by (simp add: stopRecording_def stopRecording_sync_def Let_def split: option.splits)
next
  assume "\<exists>pre. recorders (capture s) = pre @ [\<lparr>rstate = Recording, stopQueued = False, tracksLive = True\<rparr>] \<and>
        filter active pre = [] \<and> mediaRecorder (capture s) = Some (length pre)"
  then obtain pre where p: "recorders (capture s) = pre @ [\<lparr>rstate = Recording, stopQueued = False, tracksLive = True\<rparr>]"
     "filter active pre = []" "mediaRecorder (capture s) = Some (length pre)" by blast
  then show ?thesis
    by (simp add: stopRecording_def stopRecording_sync_def Let_def is_recording_def
        MediaRecorder_stop_def recorderStopped_def active_def)
qed


lemma startRecording_inv:
  assumes "filter active (recorders (capture s)) = [] \<or>
     (\<exists>pre. recorders (capture s) = pre @ [\<lparr>rstate = Recording, stopQueued = False, tracksLive = True\<rparr>] \<and>
        filter active pre = [] \<and> mediaRecorder (capture s) = Some (length pre))"
  shows "filter active (recorders (capture (snd (startRecording mic blob s)))) = [] \<or>
     (\<exists>pre. recorders (capture (snd (startRecording mic blob s))) =
          pre @ [\<lparr>rstate = Recording, stopQueued = False, tracksLive = True\<rparr>] \<and>
        filter active pre = [] \<and>
        mediaRecorder (capture (snd (startRecording mic blob s))) = Some (length pre))"
proof -
  have c: "filter active (recorders (capture (stopRecording blob s))) = []"
    using assms by (rule stopRecording_clean)
  show ?thesis
  proof (cases mic)
    case False
    then show ?thesis using c
      by (simp add: startRecording_def startRecording_afterStop_def startRecording_afterMic_def
          Let_def showError_def)
  next
    case True
    then show ?thesis using c
      by (simp add: startRecording_def startRecording_afterStop_def startRecording_afterMic_def
          Let_def)
  qed
qed

lemma capture_step_inv:
  assumes "filter active (recorders (capture s)) = [] \<or>
     (\<exists>pre. recorders (capture s) = pre @ [\<lparr>rstate = Recording, stopQueued = False, tracksLive = True\<rparr>] \<and>
        filter active pre = [] \<and> mediaRecorder (capture s) = Some (length pre))"
  shows "filter active (recorders (capture (capture_step c s))) = [] \<or>
     (\<exists>pre. recorders (capture (capture_step c s)) =
          pre @ [\<lparr>rstate = Recording, stopQueued = False, tracksLive = True\<rparr>] \<and>
        filter active pre = [] \<and>
        mediaRecorder (capture (capture_step c s)) = Some (length pre))"
proof (cases c)
  case (StartRecordingCall mic blob)
  then show ?thesis using startRecording_inv [OF assms] by simp
next
  case (StopRecordingCall blob)
  then show ?thesis using stopRecording_clean [OF assms] by simp
qed

lemma capture_run_inv:
  "filter active (recorders (capture s)) = [] \<or>
     (\<exists>pre. recorders (capture s) = pre @ [\<lparr>rstate = Recording, stopQueued = False, tracksLive = True\<rparr>] \<and>
        filter active pre = [] \<and> mediaRecorder (capture s) = Some (length pre)) \<Longrightarrow>
   filter active (recorders (capture (capture_run cs s))) = [] \<or>
     (\<exists>pre. recorders (capture (capture_run cs s)) =
          pre @ [\<lparr>rstate = Recording, stopQueued = False, tracksLive = True\<rparr>] \<and>
        filter active pre = [] \<and>
        mediaRecorder (capture (capture_run cs s)) = Some (length pre))"
proof (induction cs arbitrary: s)
  case Nil
  then show ?case by simp
next
  case (Cons c cs)
  show ?case
    unfolding capture_run.simps
    by (rule Cons.IH) (rule capture_step_inv [OF Cons.prems])
qed

lemma stopRecording_sync_active:
  assumes "filter active (recorders (capture s)) = [] \<or>
     (\<exists>pre. recorders (capture s) = pre @ [\<lparr>rstate = Recording, stopQueued = False, tracksLive = True\<rparr>] \<and>
        filter active pre = [] \<and> mediaRecorder (capture s) = Some (length pre))"
  shows "length (filter active (recorders (capture (snd (stopRecording_sync s))))) \<le> 1"
  using assms
proof
  assume a: "filter active (recorders (capture s)) = []"
  have "\<And>r. \<not> is_recording s r"
  proof
    fix r assume "is_recording s r"
    then have "r < length (recorders (capture s))" "active (recorders (capture s) ! r)"
      by (simp_all add: is_recording_def active_def)
    then have "recorders (capture s) ! r \<in> set (filter active (recorders (capture s)))"
      by simp
    with a show False by simp
  qed
  then show ?thesis using a
    by (simp add: stopRecording_sync_def Let_def split: option.splits)
next
  assume "\<exists>pre. recorders (capture s) = pre @ [\<lparr>rstate = Recording, stopQueued = False, tracksLive = True\<rparr>] \<and>
        filter active pre = [] \<and> mediaRecorder (capture s) = Some (length pre)"
  then obtain pre where p: "recorders (capture s) = pre @ [\<lparr>rstate = Recording, stopQueued = False, tracksLive = True\<rparr>]"
     "filter active pre = []" "mediaRecorder (capture s) = Some (length pre)" by blast
  then show ?thesis
    by (simp add: stopRecording_sync_def Let_def is_recording_def MediaRecorder_stop_def active_def)
qed

text \<open>
  C8, as the code has it. For every sequence of \<open>startRecording\<close> and \<open>stopRecording\<close>
  calls from the state at module load, each awaited before the next is made, at most one
  recorder is active
  (recording, or with stop events queued, or with live tracks). This also holds between
  the call of \<open>stop()\<close> and the dispatch of the stop event inside \<open>stopRecording\<close>. When
  the promise of \<open>stopRecording\<close> is resolved, no recorder is active at all, and it is in
  this state that \<open>startRecording\<close> creates the new recorder.
\<close>

theorem at_most_one_active_recorder:
  "length (filter active (recorders (capture (capture_run cs (app_load supp bound))))) \<le> 1 \<and>
   length (filter active (recorders (capture
     (snd (stopRecording_sync (capture_run cs (app_load supp bound))))))) \<le> 1 \<and>
   filter active (recorders (capture (stopRecording blob (capture_run cs (app_load supp bound))))) = [] \<and>
   recorders (capture (snd (startRecording True blob (capture_run cs (app_load supp bound))))) =
     recorders (capture (stopRecording blob (capture_run cs (app_load supp bound)))) @
       [\<lparr>rstate = Recording, stopQueued = False, tracksLive = True\<rparr>]"
proof -
  let ?s = "capture_run cs (app_load supp bound)"
  have "filter active (recorders (capture (app_load supp bound))) = []"
    by (simp add: load_defs)
  then have inv: "filter active (recorders (capture ?s)) = [] \<or>
     (\<exists>pre. recorders (capture ?s) = pre @ [\<lparr>rstate = Recording, stopQueued = False, tracksLive = True\<rparr>] \<and>
        filter active pre = [] \<and> mediaRecorder (capture ?s) = Some (length pre))"
    by (intro capture_run_inv disjI1)
  have one: "length (filter active (recorders (capture ?s))) \<le> 1"
    using inv by (auto simp: active_def)
  show ?thesis
    using one stopRecording_sync_active [OF inv] stopRecording_clean [OF inv]
    by (simp add: startRecording_def startRecording_afterStop_def startRecording_afterMic_def
        Let_def)
qed


text \<open>
  C8 as claimed fails for calls that overlap: \<open>startRecording\<close> is called twice, the
  second time before the first call has resumed. Neither call finds a recorder to stop,
  so both stop promises are resolved at once; both calls reset the chunk list and ask for
  the microphone; when it is granted, each creates and starts a recorder. Both recorders
  record, and only the second is still referenced by \<open>mediaRecorder\<close>.
\<close>

theorem overlapping_starts_two_recorders:
  "fst (stopRecording_sync (app_load True True)) = None \<and>
   fst (stopRecording_sync (snd (stopRecording_sync (app_load True True)))) = None \<and>
   recorders (capture (snd (startRecording_afterMic True (snd (startRecording_afterMic True
     (startRecording_afterStop (startRecording_afterStop
       (snd (stopRecording_sync (snd (stopRecording_sync (app_load True True)))))))))))) =
     [\<lparr>rstate = Recording, stopQueued = False, tracksLive = True\<rparr>,
      \<lparr>rstate = Recording, stopQueued = False, tracksLive = True\<rparr>] \<and>
   mediaRecorder (capture (snd (startRecording_afterMic True (snd (startRecording_afterMic True
     (startRecording_afterStop (startRecording_afterStop
       (snd (stopRecording_sync (snd (stopRecording_sync (app_load True True)))))))))))) = Some 1"
  by (simp add: load_defs capture_defs Let_def)

section \<open>Playback\<close>

text \<open>
  C6, as the code has it. For a payload that is a non-blank string: the candidate list is
  fixed, in the preferred order. When the payload decodes, \<open>play()\<close> is called for the
  first candidate only and the loop is left; when it does not decode, no candidate is
  tried and, the animation functions being bound, the speaking animation is cleared. A
  later \<open>error\<close> event of the player tries no further candidate. No alert is shown in any
  of these cases.
\<close>

theorem playback_first_format_only:
  assumes "trim b \<noteq> []"
  shows "map fst formats = [''audio/mp3'', ''audio/mpeg'', ''audio/wav'', ''audio/x-wav'', ''audio/webm''] \<and>
     (atob_succeeds (if startsWith b ''//'' then drop 2 b else b) \<longrightarrow>
        attempts (player (state_of (playAudio (JStr b) s))) = attempts (player s) @ [fst (hd formats)]) \<and>
     (\<not> atob_succeeds (if startsWith b ''//'' then drop 2 b else b) \<longrightarrow>
        attempts (player (state_of (playAudio (JStr b) s))) = attempts (player s) \<and>
        (animationInScope (player s) \<longrightarrow>
           currentAssistantMessageDiv (ui (state_of (playAudio (JStr b) s))) = None)) \<and>
     errorAlert (ui (state_of (playAudio (JStr b) s))) = errorAlert (ui s) \<and>
     attempts (player (audioPlayer_onerror s)) = attempts (player s) \<and>
     errorAlert (ui (audioPlayer_onerror s)) = errorAlert (ui s)"
proof -
  have ne: "b \<noteq> []" using assms by (auto simp: trim_def)
  show ?thesis using assms ne
    by (auto simp add: player_defs ui_defs Let_def split: option.splits)
qed

theorem playback_first_format_only_witness:
  "trim ''AAAA'' \<noteq> [] \<and>
   attempts (player (state_of (playAudio (JStr ''AAAA'') (app_load True True)))) = [''audio/mp3'']"
proof -
  have h: "trim ''AAAA'' \<noteq> []" by (simp add: trim_def js_whitespace_def)
  have a: "atob_succeeds (if startsWith ''AAAA'' ''//'' then drop 2 ''AAAA'' else ''AAAA'')"
    by (simp add: atob_succeeds_def strip_padding_def ascii_whitespace_def base64_char_def)
  have i: "attempts (player (app_load True True)) = [] \<and> fst (hd formats) = ''audio/mp3''"
    by (simp add: load_defs formats_def)
  note c = playback_first_format_only [OF h, of "app_load True True", THEN conjunct2,
      THEN conjunct1, THEN mp, OF a]
  from c i h show ?thesis by (simp only: append_Nil simp_thms)
qed

text \<open>
  C6 as claimed fails: an assistant message with the decodable payload "AAAA" arrives and
  the player then reports an error, five times over. Only \<open>audio/mp3\<close> has been tried,
  and the assistant bubble still has the speaking animation, whether or not the animation
  functions are bound in audio.js.
\<close>

theorem playback_no_fallthrough:
  "attempts (player (run [PlaybackError, PlaybackError, PlaybackError, PlaybackError, PlaybackError]
      (handleWebSocketMessage (Object \<lparr>role = JStr ''assistant'', content = JStr ''Hi'',
         audio = JStr ''AAAA'', interviewComplete = JUndefined\<rparr>) (app_load True True)))) =
     [''audio/mp3''] \<and>
   map speaking (chatContainer (ui (run [PlaybackError, PlaybackError, PlaybackError, PlaybackError, PlaybackError]
      (handleWebSocketMessage (Object \<lparr>role = JStr ''assistant'', content = JStr ''Hi'',
         audio = JStr ''AAAA'', interviewComplete = JUndefined\<rparr>) (app_load True True))))) = [True] \<and>
   attempts (player (run [PlaybackError, PlaybackError, PlaybackError, PlaybackError, PlaybackError]
      (handleWebSocketMessage (Object \<lparr>role = JStr ''assistant'', content = JStr ''Hi'',
         audio = JStr ''AAAA'', interviewComplete = JUndefined\<rparr>) (app_load True False)))) =
     [''audio/mp3''] \<and>
   map speaking (chatContainer (ui (run [PlaybackError, PlaybackError, PlaybackError, PlaybackError, PlaybackError]
      (handleWebSocketMessage (Object \<lparr>role = JStr ''assistant'', content = JStr ''Hi'',
         audio = JStr ''AAAA'', interviewComplete = JUndefined\<rparr>) (app_load True False))))) = [True]"
  by (simp add: load_defs player_defs ui_defs interview_defs Let_def trim_def js_whitespace_def
      atob_succeeds_def strip_padding_def ascii_whitespace_def base64_char_def)

end
